theory Spec2Isabelle
  imports Main "HOL-Library.Sublist"
begin

section \<open>Strings\<close>

text \<open>
  Strings are lists of bytes. \<open>toLowerCase\<close> folds the ASCII capitals, which is what
  the JavaScript method does on ASCII text; \<open>str_includes s t\<close> is \<open>s.includes(t)\<close> and
  \<open>startsWith s p\<close> is \<open>s.startsWith(p)\<close>.
\<close>

definition lowerChar :: "char \<Rightarrow> char" where
  "lowerChar c =
     (let n = (of_char c :: nat) in if 65 \<le> n \<and> n \<le> 90 then char_of (n + 32) else c)"

definition toLowerCase :: "string \<Rightarrow> string" where
  "toLowerCase s = map lowerChar s"

fun startsWith :: "string \<Rightarrow> string \<Rightarrow> bool" where
  "startsWith s [] = True"
| "startsWith [] (p # ps) = False"
| "startsWith (c # cs) (p # ps) = (c = p \<and> startsWith cs ps)"

fun str_includes :: "string \<Rightarrow> string \<Rightarrow> bool" where
  "str_includes [] t = (t = [])"
| "str_includes (c # cs) t = (startsWith (c # cs) t \<or> str_includes cs t)"

section \<open>Skill detection\<close>

record AgentSkill =
  skill_id :: string
  skill_name :: string
  skill_description :: string
  category :: string
  triggers :: "string list"
  enabled :: bool

record AgentSoul =
  soul_name :: string
  skills :: "AgentSkill list"





text \<open>The routing predicates of the agent (\<open>needsWorkspace\<close>, \<open>needsTravel\<close>,
  \<open>needsCalendar\<close>, \<open>needsSearch\<close>); \<open>xs.some(p)\<close> is \<open>list_ex p xs\<close> and
  \<open>xs.includes(x)\<close> on an array is membership.\<close>

definition needsWorkspace :: "string list \<Rightarrow> bool" where
  "needsWorkspace skillIds =
     (let workspaceSkills = [''gmail_manage'', ''calendar_manage'', ''drive_manage'', ''contacts_manage'']
      in list_ex (\<lambda>s. s \<in> set workspaceSkills) skillIds)"

definition travelHints :: "string list" where
  "travelHints =
     [''flight'', ''flights'', ''fly'', ''flying'', ''airline'',
      ''hotel'', ''hotels'', ''stay'', ''accommodation'', ''book'',
      ''travel'', ''trip'', ''vacation'', ''holiday'',
      ''airport'', ''departure'', ''arrival'', ''outbound'', ''return date'',
      ''one way'', ''round trip'',
      ''cheapest flight'', ''budget hotel'', ''find budget'',
      ''check in'', ''check out'', ''check-in'', ''check-out'',
      ''hotel details'', ''hotel rating'', ''sort by price'', ''sort by rating'']"

definition needsTravel :: "string list \<Rightarrow> string \<Rightarrow> bool" where
  "needsTravel skillIds message =
     (if ''travel_search'' \<in> set skillIds
      then (let query = toLowerCase message in list_ex (\<lambda>hint. str_includes query hint) travelHints)
      else False)"

definition needsCalendar :: "string list \<Rightarrow> bool" where
  "needsCalendar skillIds \<longleftrightarrow> ''calendar_manage'' \<in> set skillIds"

definition realtimeHints :: "string list" where
  "realtimeHints =
     [''today'', ''current'', ''latest'', ''news'', ''price'', ''rate'', ''cost'', ''stock'',
      ''market'', ''silver'', ''gold'', ''crypto'', ''weather'', ''who won'', ''score'',
      ''election'', ''convert'', ''conversion'', ''how many'', ''how much is'', ''exchange rate'']"

definition needsSearch :: "string list \<Rightarrow> string \<Rightarrow> bool" where
  "needsSearch skillIds message =
     (if ''web_search'' \<in> set skillIds then True
      else (let query = toLowerCase message in list_ex (\<lambda>hint. str_includes query hint) realtimeHints))"

section \<open>Tool declarations\<close>

record SchemaProperty =
  prop_type :: string
  prop_description :: "string option"

record InputSchema =
  schema_type :: string
  properties :: "(string \<times> SchemaProperty) list option"
  required :: "string list option"

record MCPTool =
  tool_name :: string
  tool_description :: string
  inputSchema :: InputSchema

record BrainState =
  initialized :: bool
  brain_soul :: "AgentSoul option"
  mcpTools :: "MCPTool list"
  mcpConnected :: bool
  memoryConnected :: bool

record GeminiProperty =
  gp_type :: string
  gp_description :: string

record GeminiParameters =
  params_type :: string
  params_properties :: "(string \<times> GeminiProperty) list"
  params_required :: "string list"

record FunctionDeclaration =
  fd_name :: string
  fd_description :: string
  fd_parameters :: GeminiParameters

definition EXCLUDED_MCP_TOOLS :: "string list" where
  "EXCLUDED_MCP_TOOLS = [''search'', ''get_cache_stats'', ''clear_cache'']"

text \<open>The object built for one tool by the \<open>.map\<close> of \<open>buildMCPFunctionDeclarations\<close>;
  \<open>x || d\<close> on an optional field is a case distinction with default \<open>d\<close>.\<close>

definition toFunctionDeclaration :: "MCPTool \<Rightarrow> FunctionDeclaration" where
  "toFunctionDeclaration tool =
     \<lparr>fd_name = tool_name tool,
      fd_description = tool_description tool,
      fd_parameters =
        \<lparr>params_type = ''object'',
         params_properties =
           map (\<lambda>(key, v).
                  (key, \<lparr>gp_type = (if prop_type v = ''number'' then ''number'' else ''string''),
                         gp_description =
                           (case prop_description v of None \<Rightarrow> [] | Some d \<Rightarrow> d)\<rparr>))
               (case properties (inputSchema tool) of None \<Rightarrow> [] | Some ps \<Rightarrow> ps),
         params_required =
           (case required (inputSchema tool) of None \<Rightarrow> [] | Some r \<Rightarrow> r)\<rparr>\<rparr>"

definition buildMCPFunctionDeclarations :: "BrainState \<Rightarrow> FunctionDeclaration list" where
  "buildMCPFunctionDeclarations state =
     (if \<not> mcpConnected state \<or> length (mcpTools state) = 0 then []
      else map toFunctionDeclaration
             (filter (\<lambda>tool. tool_name tool \<notin> set EXCLUDED_MCP_TOOLS) (mcpTools state)))"

text \<open>An element of the \<open>tools\<close> array that \<open>chat\<close> passes to the model: either
  \<open>{ functionDeclarations: [...] }\<close> or \<open>{ googleSearch: {} }\<close>.\<close>

datatype ToolEntry = FunctionDeclarations "FunctionDeclaration list" | GoogleSearch

record RoutingFlags =
  useWorkspace :: bool
  useCalendar :: bool
  useTravel :: bool
  useSearch :: bool

text \<open>The routing flags that \<open>chat\<close> computes from the detected skills and the message.\<close>

definition chat_flags :: "BrainState \<Rightarrow> string list \<Rightarrow> string \<Rightarrow> RoutingFlags" where
  "chat_flags state skillIds message =
     \<lparr>useWorkspace = (needsWorkspace skillIds \<and> mcpConnected state),
      useCalendar = needsCalendar skillIds,
      useTravel = (needsTravel skillIds message \<and> mcpConnected state),
      useSearch = needsSearch skillIds message\<rparr>"

text \<open>The \<open>tools\<close> array of \<open>chat\<close>: MCP function declarations when a workspace or
  travel flag is set and some declaration is left, otherwise the built-in search when the
  search flag is set, otherwise nothing.\<close>

definition chat_tools :: "BrainState \<Rightarrow> RoutingFlags \<Rightarrow> ToolEntry list" where
  "chat_tools state flags =
     (let mcpFunctions =
            (if useWorkspace flags \<or> useTravel flags then buildMCPFunctionDeclarations state else [])
      in if length mcpFunctions > 0 then [FunctionDeclarations mcpFunctions]
         else if useSearch flags then [GoogleSearch]
         else [])"

section \<open>Example inputs\<close>

definition skillA :: AgentSkill where
  "skillA = \<lparr>skill_id = ''gmail_manage'', skill_name = ''Email'', skill_description = [],
     category = ''workspace'', triggers = [''inbox'', ''Mail''], enabled = True\<rparr>"

definition skillB :: AgentSkill where
  "skillB = \<lparr>skill_id = ''drive_manage'', skill_name = ''Drive'', skill_description = [],
     category = ''workspace'', triggers = [''mail''], enabled = False\<rparr>"

definition soulW :: AgentSoul where
  "soulW = \<lparr>soul_name = ''2nd Brain'', skills = [skillB, skillA]\<rparr>"

definition mkTool :: "string \<Rightarrow> MCPTool" where
  "mkTool n = \<lparr>tool_name = n, tool_description = [],
     inputSchema = \<lparr>schema_type = ''object'', properties = None, required = None\<rparr>\<rparr>"

definition brainW :: BrainState where
  "brainW = \<lparr>initialized = True, brain_soul = Some soulW,
     mcpTools = [mkTool ''search'', mkTool ''gmail_send''],
     mcpConnected = True, memoryConnected = False\<rparr>"

section \<open>JavaScript values, errors and HTTP\<close>

text \<open>
  A JSON value as \<open>JSON.parse\<close> delivers it; \<open>undefined\<close> is \<open>None\<close> of
  \<open>json option\<close>. Numbers are integers. \<open>truthy\<close> is JavaScript's truthiness,
  \<open>jsProp\<close> a property read on a value that is neither \<open>null\<close> nor \<open>undefined\<close>,
  \<open>getProp\<close> the read \<open>x.k\<close> (a TypeError on \<open>null\<close> and \<open>undefined\<close>) and
  \<open>optProp\<close> the read \<open>x?.k\<close>.
\<close>

datatype json =
  JNull | JBool bool | JNum int | JStr string | JArr "json list" | JObj "(string \<times> json) list"

datatype js_error = JsError (err_message: string)

fun truthy :: "json \<Rightarrow> bool" where
  "truthy JNull = False"
| "truthy (JBool b) = b"
| "truthy (JNum n) = (n \<noteq> 0)"
| "truthy (JStr s) = (s \<noteq> [])"
| "truthy (JArr xs) = True"
| "truthy (JObj fs) = True"

definition truthyOpt :: "json option \<Rightarrow> bool" where
  "truthyOpt v = (case v of None \<Rightarrow> False | Some j \<Rightarrow> truthy j)"

text \<open>Truthiness of a \<open>string | null | undefined\<close>: present and not empty.\<close>

definition truthyStr :: "string option \<Rightarrow> bool" where
  "truthyStr v = (case v of None \<Rightarrow> False | Some s \<Rightarrow> s \<noteq> [])"

fun jsProp :: "json \<Rightarrow> string \<Rightarrow> json option" where
  "jsProp (JObj fs) k = map_of fs k"
| "jsProp j k = None"

definition getProp :: "json option \<Rightarrow> string \<Rightarrow> js_error + json option" where
  "getProp v k =
     (case v of
        None \<Rightarrow> Inl (JsError (''Cannot read properties of undefined (reading '' @ k @ '')''))
      | Some JNull \<Rightarrow> Inl (JsError (''Cannot read properties of null (reading '' @ k @ '')''))
      | Some j \<Rightarrow> Inr (jsProp j k))"

definition optProp :: "json option \<Rightarrow> string \<Rightarrow> json option" where
  "optProp v k = (case v of None \<Rightarrow> None | Some JNull \<Rightarrow> None | Some j \<Rightarrow> jsProp j k)"

text \<open>String helpers: \<open>s.trim()\<close> on ASCII white space, \<open>s.replace(/suf$/, "")\<close> for a
  literal suffix, \<open>s.replace(/\<^verbatim>\<open>\/mcp\/?$\<close>/, "")\<close>, \<open>s.replace(/^pre/, "")\<close>,
  \<open>s.replace(/\<^verbatim>\<open>\.\<close>/g, "_")\<close> and \<open>s.split("\n")\<close>.\<close>

definition isSpace :: "char \<Rightarrow> bool" where
  "isSpace c \<longleftrightarrow> c \<in> set [CHR '' '', CHR 0x09, CHR 0x0A, CHR 0x0B, CHR 0x0C, CHR 0x0D]"

definition trim :: "string \<Rightarrow> string" where
  "trim s = rev (dropWhile isSpace (rev (dropWhile isSpace s)))"

definition endsWith :: "string \<Rightarrow> string \<Rightarrow> bool" where
  "endsWith s suf \<longleftrightarrow> startsWith (rev s) (rev suf)"

definition stripSuffix :: "string \<Rightarrow> string \<Rightarrow> string" where
  "stripSuffix suf s = (if endsWith s suf then take (length s - length suf) s else s)"

definition stripPrefix :: "string \<Rightarrow> string \<Rightarrow> string" where
  "stripPrefix pre s = (if startsWith s pre then drop (length pre) s else s)"

definition stripMcpSuffix :: "string \<Rightarrow> string" where
  "stripMcpSuffix s =
     (if endsWith s ''/mcp/'' then take (length s - 5) s else stripSuffix ''/mcp'' s)"

definition dotsToUnderscores :: "string \<Rightarrow> string" where
  "dotsToUnderscores s = map (\<lambda>c. if c = CHR ''.'' then CHR ''_'' else c) s"

fun splitLines :: "string \<Rightarrow> string \<Rightarrow> string list" where
  "splitLines cur [] = [rev cur]"
| "splitLines cur (c # cs) =
     (if c = CHR 0x0A then rev cur # splitLines [] cs else splitLines (c # cur) cs)"

text \<open>Header objects (\<open>Record<string, string>\<close>) are association lists; \<open>h[k] = v\<close>
  is \<open>setHeader\<close> and the spread \<open>{...a, ...b}\<close> is \<open>mergeHeaders\<close>.\<close>

fun setHeader :: "string \<Rightarrow> string \<Rightarrow> (string \<times> string) list \<Rightarrow> (string \<times> string) list" where
  "setHeader k v [] = [(k, v)]"
| "setHeader k v ((k', v') # hs) =
     (if k = k' then (k, v) # hs else (k', v') # setHeader k v hs)"

fun mergeHeaders :: "(string \<times> string) list \<Rightarrow> (string \<times> string) list \<Rightarrow> (string \<times> string) list" where
  "mergeHeaders a [] = a"
| "mergeHeaders a ((k, v) # b) = mergeHeaders (setHeader k v a) b"

record Request =
  req_url :: string
  req_method :: string
  req_headers :: "(string \<times> string) list"
  req_body :: "json option"

text \<open>The body of a response: reading it fails, or it delivers a text.\<close>

datatype Body = BodyError js_error | BodyText string

record Response =
  status :: nat
  statusText :: string
  sessionIdHeader :: "string option"
  contentType :: "string option"
  body :: Body

definition ok :: "Response \<Rightarrow> bool" where
  "ok res \<longleftrightarrow> 200 \<le> status res \<and> status res \<le> 299"

section \<open>Tool results\<close>

record ContentItem =
  item_type :: string
  item_text :: "string option"

record MCPToolResult =
  content :: "ContentItem list"
  isError :: "bool option"

definition textResult :: "string option \<Rightarrow> MCPToolResult" where
  "textResult t = \<lparr>content = [\<lparr>item_type = ''text'', item_text = t\<rparr>], isError = None\<rparr>"

definition errorResult :: "string \<Rightarrow> MCPToolResult" where
  "errorResult t = \<lparr>content = [\<lparr>item_type = ''text'', item_text = Some t\<rparr>], isError = Some True\<rparr>"

section \<open>The environment of the MCP client\<close>

text \<open>
  Everything the client reaches outside itself is a field of the environment: the
  network (\<open>fetch\<close>, which may reject), the clock (\<open>Date.now()\<close>), the secure store, the
  build-time configuration, and the JavaScript built-ins whose results the client only
  passes on (\<open>JSON.parse\<close>, \<open>JSON.stringify\<close>, \<open>parseInt\<close>, number and value to string
  conversion, \<open>encodeURIComponent\<close>). The unchecked casts \<open>as MCPTool[]\<close> and the return of
  a remote \<open>result\<close> as an \<open>MCPToolResult\<close> are the fields \<open>asMCPTool\<close> and
  \<open>asMCPToolResult\<close>: remote data is read at its declared type. The type \<open>'w\<close> is the
  state of the world outside the client; it changes with every request and every write
  to the store.
\<close>

record 'w Env =
  fetch :: "'w \<Rightarrow> Request \<Rightarrow> (js_error + Response) \<times> 'w"
  dateNow :: "'w \<Rightarrow> int"
  secureGet :: "'w \<Rightarrow> string \<Rightarrow> js_error + string option"
  secureSet :: "'w \<Rightarrow> string \<Rightarrow> string \<Rightarrow> js_error option \<times> 'w"
  secureDelete :: "'w \<Rightarrow> string \<Rightarrow> 'w"
  MCP_GOOGLE_URL :: string
  MCP_TRAVEL_URL :: string
  SERPAPI_API_KEY :: string
  MCP_API_KEY :: string
  parseJSON :: "string \<Rightarrow> json option"
  stringify :: "json \<Rightarrow> string"
  toStr :: "json \<Rightarrow> string"
  toNum :: "json \<Rightarrow> int"
  parseInt :: "string \<Rightarrow> int option"
  intToString :: "int \<Rightarrow> string"
  encodeURIComponent :: "string \<Rightarrow> string"
  asMCPTool :: "json \<Rightarrow> MCPTool"
  asMCPToolResult :: "json \<Rightarrow> MCPToolResult"

definition MCP_SERVER_URL :: "'w Env \<Rightarrow> string" where
  "MCP_SERVER_URL env = MCP_GOOGLE_URL env"

section \<open>The state of the MCP client\<close>

datatype AuthEventType = NeedsRelogin | TokenRefreshed | TokenCleared

datatype Protocol = Rest | Mcp

record MCPSession =
  sessionId :: string
  connected :: bool
  session_tools :: "MCPTool list"
  session_toolToServer :: "string \<rightharpoonup> string"

text \<open>
  What the client does is recorded in a log that the program itself does not read: every
  request handed to \<open>fetch\<close>, every auth event handed to the subscribers of
  \<open>onAuthEvent\<close> (whose own exceptions \<open>emitAuthEvent\<close> swallows), every entry into
  \<open>refreshGoogleToken\<close>, and every call of \<open>callMCPTool\<close> with the result it
  returns.
\<close>

datatype LogEntry =
    Fetched Request
  | Emitted AuthEventType
  | RefreshCalled
  | ToolInvoked string json
  | ToolReturned MCPToolResult

record ClientState =
  googleAccessToken :: "string option"
  googleRefreshToken :: "string option"
  googleTokenExpiry :: int
  authInitialized :: bool
  mcpSessions :: "string \<rightharpoonup> string"
  serverProtocol :: "string \<rightharpoonup> Protocol"
  rpcId :: nat
  currentSession :: "MCPSession option"
  toolToServerMap :: "string \<rightharpoonup> string"
  log :: "LogEntry list"

text \<open>
  An \<open>async\<close> function of the client takes the client state and the world and returns
  them changed, with either the value it resolves to or the error it rejects with.
  \<open>bindM\<close> is \<open>await\<close> followed by the rest of the body, \<open>tryCatch\<close> is
  \<open>try { ... } catch (e) { ... }\<close>.
\<close>

type_synonym ('a, 'w) M = "ClientState \<times> 'w \<Rightarrow> (js_error + 'a) \<times> ClientState \<times> 'w"

definition ret :: "'a \<Rightarrow> ('a, 'w) M" where
  "ret a = (\<lambda>\<sigma>. (Inr a, \<sigma>))"

definition throw :: "js_error \<Rightarrow> ('a, 'w) M" where
  "throw e = (\<lambda>\<sigma>. (Inl e, \<sigma>))"

definition bindM :: "('a, 'w) M \<Rightarrow> ('a \<Rightarrow> ('b, 'w) M) \<Rightarrow> ('b, 'w) M" where
  "bindM m f = (\<lambda>\<sigma>. case m \<sigma> of (Inl e, \<sigma>') \<Rightarrow> (Inl e, \<sigma>') | (Inr a, \<sigma>') \<Rightarrow> f a \<sigma>')"

definition tryCatch :: "('a, 'w) M \<Rightarrow> (js_error \<Rightarrow> ('a, 'w) M) \<Rightarrow> ('a, 'w) M" where
  "tryCatch m h = (\<lambda>\<sigma>. case m \<sigma> of (Inl e, \<sigma>') \<Rightarrow> h e \<sigma>' | (Inr a, \<sigma>') \<Rightarrow> (Inr a, \<sigma>'))"

definition liftE :: "js_error + 'a \<Rightarrow> ('a, 'w) M" where
  "liftE r = (\<lambda>\<sigma>. (r, \<sigma>))"

definition getState :: "(ClientState, 'w) M" where
  "getState = (\<lambda>(s, w). (Inr s, (s, w)))"

definition modify :: "(ClientState \<Rightarrow> ClientState) \<Rightarrow> (unit, 'w) M" where
  "modify f = (\<lambda>(s, w). (Inr (), (f s, w)))"

definition now :: "'w Env \<Rightarrow> (int, 'w) M" where
  "now env = (\<lambda>(s, w). (Inr (dateNow env w), (s, w)))"

definition doFetch :: "'w Env \<Rightarrow> Request \<Rightarrow> (Response, 'w) M" where
  "doFetch env req =
     (\<lambda>(s, w). case fetch env w req of (r, w') \<Rightarrow> (r, (s\<lparr>log := log s @ [Fetched req]\<rparr>, w')))"

definition resText :: "Response \<Rightarrow> (string, 'w) M" where
  "resText res = liftE (case body res of BodyError e \<Rightarrow> Inl e | BodyText t \<Rightarrow> Inr t)"

definition resJson :: "'w Env \<Rightarrow> Response \<Rightarrow> (json, 'w) M" where
  "resJson env res =
     bindM (resText res) (\<lambda>t.
       case parseJSON env t of
         None \<Rightarrow> throw (JsError ''Unexpected token in JSON'')
       | Some j \<Rightarrow> ret j)"

definition thenM :: "(unit, 'w) M \<Rightarrow> ('b, 'w) M \<Rightarrow> ('b, 'w) M" where
  "thenM m n = bindM m (\<lambda>_. n)"

section \<open>Auth state and storage\<close>

definition SECURE_googleAccessToken :: string where
  "SECURE_googleAccessToken = ''mcp_google_access_token''"

definition SECURE_googleRefreshToken :: string where
  "SECURE_googleRefreshToken = ''mcp_google_refresh_token''"

definition SECURE_googleTokenExpiry :: string where
  "SECURE_googleTokenExpiry = ''mcp_google_token_expiry''"

definition emitAuthEvent :: "AuthEventType \<Rightarrow> (unit, 'w) M" where
  "emitAuthEvent event = modify (\<lambda>s. s\<lparr>log := log s @ [Emitted event]\<rparr>)"

text \<open>\<open>Promise.all\<close> over \<open>deleteSecureItemAsync\<close>, which catches every error of the
  store, and over \<open>setSecureItemAsync\<close>, which rethrows the errors of the store: every
  write is made, and the first rejection is the one that is thrown.\<close>

definition deleteSecureItems :: "'w Env \<Rightarrow> string list \<Rightarrow> (unit, 'w) M" where
  "deleteSecureItems env keys = (\<lambda>(s, w). (Inr (), (s, foldl (secureDelete env) w keys)))"

fun setSecureItemsW :: "'w Env \<Rightarrow> (string \<times> string) list \<Rightarrow> 'w \<Rightarrow> js_error option \<times> 'w" where
  "setSecureItemsW env [] w = (None, w)"
| "setSecureItemsW env ((k, v) # kvs) w =
     (case secureSet env w k v of
        (r, w1) \<Rightarrow>
          (case setSecureItemsW env kvs w1 of
             (r', w2) \<Rightarrow> ((case r of Some e \<Rightarrow> Some e | None \<Rightarrow> r'), w2)))"

definition setSecureItems :: "'w Env \<Rightarrow> (string \<times> string) list \<Rightarrow> (unit, 'w) M" where
  "setSecureItems env kvs =
     (\<lambda>(s, w). case setSecureItemsW env kvs w of
                  (None, w') \<Rightarrow> (Inr (), (s, w'))
                | (Some e, w') \<Rightarrow> (Inl e, (s, w')))"

definition clearMCPGoogleToken :: "'w Env \<Rightarrow> (unit, 'w) M" where
  "clearMCPGoogleToken env =
     thenM (modify (\<lambda>s. s\<lparr>googleAccessToken := None, googleRefreshToken := None,
                             googleTokenExpiry := 0\<rparr>))
    (thenM (deleteSecureItems env
              [SECURE_googleAccessToken, SECURE_googleRefreshToken, SECURE_googleTokenExpiry])
           (emitAuthEvent TokenCleared))"

definition setMCPGoogleToken :: "'w Env \<Rightarrow> string \<Rightarrow> int \<Rightarrow> string option \<Rightarrow> (unit, 'w) M" where
  "setMCPGoogleToken env accessToken expiresIn refreshToken =
     bindM (now env) (\<lambda>t.
     thenM (modify (\<lambda>s. s\<lparr>googleAccessToken := Some accessToken,
                             googleTokenExpiry := t + expiresIn * 1000\<rparr>))
    (thenM (if truthyStr refreshToken
            then modify (\<lambda>s. s\<lparr>googleRefreshToken := refreshToken\<rparr>) else ret ())
           (setSecureItems env
              ([(SECURE_googleAccessToken, accessToken),
                (SECURE_googleTokenExpiry, intToString env (t + expiresIn * 1000))]
               @ (case refreshToken of
                    None \<Rightarrow> []
                  | Some r \<Rightarrow> if r \<noteq> [] then [(SECURE_googleRefreshToken, r)] else [])))))"

text \<open>The three statements \<open>await clearMCPGoogleToken(); emitAuthEvent("needs_relogin");
  return false;\<close> that end every failing branch of \<open>refreshGoogleToken\<close>.\<close>

definition failRefresh :: "'w Env \<Rightarrow> (bool, 'w) M" where
  "failRefresh env =
     thenM (clearMCPGoogleToken env) (thenM (emitAuthEvent NeedsRelogin) (ret False))"

text \<open>The arguments that \<open>refreshGoogleToken\<close> passes to \<open>setMCPGoogleToken\<close>:
  \<open>data.access_token\<close> (a string by the declared protocol, any other value is coerced) and
  \<open>data.expires_in || 3600\<close>.\<close>

definition refreshedAccessToken :: "'w Env \<Rightarrow> json option \<Rightarrow> string" where
  "refreshedAccessToken env access_token =
     (case access_token of
        Some (JStr a) \<Rightarrow> a
      | Some j \<Rightarrow> toStr env j
      | None \<Rightarrow> [])"

definition refreshedExpiresIn :: "'w Env \<Rightarrow> json \<Rightarrow> int" where
  "refreshedExpiresIn env data =
     (case jsProp data ''expires_in'' of
        Some (JNum n) \<Rightarrow> if n \<noteq> 0 then n else 3600
      | Some j \<Rightarrow> if truthy j then toNum env j else 3600
      | None \<Rightarrow> 3600)"

text \<open>The part of the \<open>try\<close> block of \<open>refreshGoogleToken\<close> that follows the
  \<open>fetch\<close>.\<close>

definition refreshFromResponse :: "'w Env \<Rightarrow> Response \<Rightarrow> (bool, 'w) M" where
  "refreshFromResponse env res =
     (if \<not> ok res then failRefresh env
      else
        bindM (resJson env res) (\<lambda>data.
        bindM (liftE (getProp (Some data) ''access_token'')) (\<lambda>access_token.
          if truthyOpt access_token then
            bindM getState (\<lambda>s'.
            thenM (setMCPGoogleToken env
                     (refreshedAccessToken env access_token)
                     (refreshedExpiresIn env data)
                     (if truthyStr (googleRefreshToken s') then googleRefreshToken s' else None))
           (thenM (emitAuthEvent TokenRefreshed) (ret True)))
          else failRefresh env)))"

definition refreshRequest :: "string \<Rightarrow> string option \<Rightarrow> Request" where
  "refreshRequest serverBase refreshToken =
     \<lparr>req_url = serverBase @ ''/auth/refresh'', req_method = ''POST'',
      req_headers = [(''Content-Type'', ''application/json'')],
      req_body = Some (JObj [(''refresh_token'',
                   JStr (case refreshToken of None \<Rightarrow> [] | Some r \<Rightarrow> r))])\<rparr>"

definition refreshGoogleToken :: "'w Env \<Rightarrow> (bool, 'w) M" where
  "refreshGoogleToken env =
     thenM (modify (\<lambda>s. s\<lparr>log := log s @ [RefreshCalled]\<rparr>))
    (bindM getState (\<lambda>s.
       if \<not> truthyStr (googleRefreshToken s) then
         thenM (if truthyStr (googleAccessToken s)
                then thenM (clearMCPGoogleToken env) (emitAuthEvent NeedsRelogin)
                else ret ())
               (ret False)
       else
         let serverBase =
               (if MCP_SERVER_URL env \<noteq> []
                then stripSuffix ''/'' (stripMcpSuffix (MCP_SERVER_URL env)) else [])
         in if serverBase = [] then failRefresh env
            else
              tryCatch
                (bindM (doFetch env (refreshRequest serverBase (googleRefreshToken s)))
                       (refreshFromResponse env))
                (\<lambda>e. failRefresh env)))"

section \<open>Auth headers\<close>

text \<open>Whether \<open>getMCPAuthHeaders\<close> takes the static-key branch for the URL: the URL is
  the configured Travel endpoint and an API key is configured.\<close>

definition isTravelUrl :: "'w Env \<Rightarrow> string option \<Rightarrow> bool" where
  "isTravelUrl env mcpUrl =
     (let travelRoot = stripSuffix ''/mcp'' (stripSuffix ''/'' (trim (MCP_TRAVEL_URL env)));
          mcpRoot = stripSuffix ''/mcp'' (stripSuffix ''/'' (case mcpUrl of None \<Rightarrow> [] | Some u \<Rightarrow> u))
      in truthyStr mcpUrl \<and> travelRoot \<noteq> [] \<and> mcpRoot = travelRoot)"

definition getMCPAuthHeaders :: "'w Env \<Rightarrow> string option \<Rightarrow> ((string \<times> string) list, 'w) M" where
  "getMCPAuthHeaders env mcpUrl =
     (let headers = [(''Content-Type'', ''application/json'')];
          apiKey = trim (MCP_API_KEY env)
      in if isTravelUrl env mcpUrl \<and> apiKey \<noteq> [] then ret (setHeader ''X-API-Key'' apiKey headers)
         else
           bindM getState (\<lambda>s.
             if truthyStr (googleAccessToken s) then
               bindM (now env) (\<lambda>t.
               thenM (if googleTokenExpiry s \<le> t
                      then bindM (refreshGoogleToken env) (\<lambda>refreshed. ret ())
                      else ret ())
              (bindM getState (\<lambda>s2.
               bindM (now env) (\<lambda>t2.
                 if truthyStr (googleAccessToken s2) \<and> googleTokenExpiry s2 > t2
                 then ret (setHeader ''Authorization''
                             (''Bearer '' @ (case googleAccessToken s2 of None \<Rightarrow> [] | Some a \<Rightarrow> a))
                             headers)
                 else ret headers))))
             else ret headers))"

text \<open>Calling \<open>getMCPAuthHeaders\<close> once for each URL of a list, one call after the
  other.\<close>

fun getMCPAuthHeadersMany ::
  "'w Env \<Rightarrow> string option list \<Rightarrow> ClientState \<times> 'w \<Rightarrow>
     (js_error + (string \<times> string) list) list \<times> ClientState \<times> 'w" where
  "getMCPAuthHeadersMany env [] \<sigma> = ([], \<sigma>)"
| "getMCPAuthHeadersMany env (u # us) \<sigma> =
     (case getMCPAuthHeaders env u \<sigma> of
        (r, \<sigma>1) \<Rightarrow> (case getMCPAuthHeadersMany env us \<sigma>1 of (rs, \<sigma>2) \<Rightarrow> (r # rs, \<sigma>2)))"

text \<open>Whether a log entry is a request handed to \<open>fetch\<close>.\<close>

fun isFetched :: "LogEntry \<Rightarrow> bool" where
  "isFetched (Fetched q) = True"
| "isFetched x = False"

section \<open>Example environments\<close>

text \<open>
  An environment with a given network and JSON parser over a world without state: the
  clock stands at 1000, the secure store is empty and accepts every write, and the
  configuration names a Google Workspace endpoint only.
\<close>

definition mkEnv :: "(Request \<Rightarrow> js_error + Response) \<Rightarrow> (string \<Rightarrow> json option) \<Rightarrow> unit Env" where
  "mkEnv net parse =
     \<lparr>fetch = (\<lambda>w req. (net req, w)),
      dateNow = (\<lambda>w. 1000),
      secureGet = (\<lambda>w k. Inr None),
      secureSet = (\<lambda>w k v. (None, w)),
      secureDelete = (\<lambda>w k. w),
      MCP_GOOGLE_URL = ''https://g.example/mcp'',
      MCP_TRAVEL_URL = [],
      SERPAPI_API_KEY = [],
      MCP_API_KEY = [],
      parseJSON = parse,
      stringify = (\<lambda>j. ''json''),
      toStr = (\<lambda>j. ''value''),
      toNum = (\<lambda>j. 0),
      parseInt = (\<lambda>s. None),
      intToString = (\<lambda>n. ''n''),
      encodeURIComponent = (\<lambda>s. s),
      asMCPTool = (\<lambda>j. mkTool (case jsProp j ''name'' of Some (JStr n) \<Rightarrow> n | _ \<Rightarrow> [])),
      asMCPToolResult = (\<lambda>j. textResult None)\<rparr>"

definition mkResponse :: "nat \<Rightarrow> string \<Rightarrow> Response" where
  "mkResponse st txt =
     \<lparr>status = st, statusText = [], sessionIdHeader = None, contentType = None,
      body = BodyText txt\<rparr>"

text \<open>A client that holds an OAuth token which expired at time 0, and a refresh token.\<close>

definition clientExpired :: ClientState where
  "clientExpired =
     \<lparr>googleAccessToken = Some ''old'', googleRefreshToken = Some ''refresh'',
      googleTokenExpiry = 0, authInitialized = True, mcpSessions = Map.empty,
      serverProtocol = Map.empty, rpcId = 1, currentSession = None,
      toolToServerMap = Map.empty, log = []\<rparr>"

text \<open>A network on which every request is rejected.\<close>

definition envDown :: "unit Env" where
  "envDown = mkEnv (\<lambda>req. Inl (JsError ''Network request failed'')) (\<lambda>t. None)"

text \<open>What one run of the \<open>try\<close> block of \<open>refreshGoogleToken\<close> adds to the log, by its
  result: nothing when it throws, the refreshed event when it returns true, and the cleared
  and re-login events, with the token gone, when it returns false.\<close>

definition refreshOutcome :: "ClientState \<Rightarrow> (js_error + bool) \<Rightarrow> ClientState \<Rightarrow> bool" where
  "refreshOutcome s r s' \<longleftrightarrow>
     (case r of
        Inl e \<Rightarrow> log s' = log s
      | Inr True \<Rightarrow> log s' = log s @ [Emitted TokenRefreshed]
      | Inr False \<Rightarrow> log s' = log s @ [Emitted TokenCleared, Emitted NeedsRelogin]
                      \<and> googleAccessToken s' = None)"

section \<open>URL helpers and configured servers\<close>

record ServerUrl =
  srv_baseUrl :: string
  srv_name :: string
  srv_rootUrl :: "string option"

definition normalizeBaseUrl :: "string \<Rightarrow> string \<times> string option" where
  "normalizeBaseUrl url =
     (let b0 = stripSuffix ''/'' url;
          b = (if \<not> endsWith b0 ''/mcp'' then b0 @ ''/mcp'' else b0)
      in (b, Some (stripSuffix ''/mcp'' b)))"

definition getMcpServerUrls :: "'w Env \<Rightarrow> ServerUrl list" where
  "getMcpServerUrls env =
     (let googleUrl = trim (MCP_GOOGLE_URL env);
          travelUrl = trim (MCP_TRAVEL_URL env);
          serpKey = trim (SERPAPI_API_KEY env)
      in (if googleUrl \<noteq> []
          then [\<lparr>srv_baseUrl = fst (normalizeBaseUrl googleUrl), srv_name = ''google'',
                 srv_rootUrl = snd (normalizeBaseUrl googleUrl)\<rparr>]
          else [])
         @ (if travelUrl \<noteq> []
            then [\<lparr>srv_baseUrl = fst (normalizeBaseUrl travelUrl), srv_name = ''travel'',
                   srv_rootUrl = snd (normalizeBaseUrl travelUrl)\<rparr>]
            else if serpKey \<noteq> []
            then [\<lparr>srv_baseUrl = ''https://mcp.serpapi.com/'' @ encodeURIComponent env serpKey @ ''/mcp'',
                   srv_name = ''travel'', srv_rootUrl = None\<rparr>]
            else []))"

section \<open>MCP protocol (JSON-RPC over HTTP)\<close>

text \<open>The loop of \<open>parseMcpResponse\<close> over the lines of an event stream: the first
  \<open>data: \<close> line that parses is the envelope.\<close>

fun sseLoop :: "'w Env \<Rightarrow> string list \<Rightarrow> json option" where
  "sseLoop env [] = None"
| "sseLoop env (line # rest) =
     (if startsWith line ''data: ''
      then (case parseJSON env (trim (drop 6 line)) of
              Some envelope \<Rightarrow> Some envelope
            | None \<Rightarrow> sseLoop env rest)
      else sseLoop env rest)"

definition parseMcpResponse :: "'w Env \<Rightarrow> Response \<Rightarrow> (json, 'w) M" where
  "parseMcpResponse env res =
     (let ct = (case contentType res of None \<Rightarrow> [] | Some c \<Rightarrow> c)
      in if str_includes ct ''text/event-stream''
         then bindM (resText res) (\<lambda>text.
                case sseLoop env (splitLines [] text) of
                  Some envelope \<Rightarrow> ret envelope
                | None \<Rightarrow> throw (JsError ''No valid JSON-RPC message in SSE stream''))
         else resJson env res)"

text \<open>\<open>data.error.message || JSON.stringify(data.error)\<close> for a truthy \<open>data.error\<close>.\<close>

definition rpcErrorText :: "'w Env \<Rightarrow> json \<Rightarrow> string" where
  "rpcErrorText env err =
     (case jsProp err ''message'' of
        Some (JStr m) \<Rightarrow> if m \<noteq> [] then m else stringify env err
      | Some j \<Rightarrow> if truthy j then toStr env j else stringify env err
      | None \<Rightarrow> stringify env err)"

text \<open>\<open>body.id = _rpcId++\<close>, for a request that is not a notification.\<close>

definition nextRpcId :: "bool \<Rightarrow> ((string \<times> json) list, 'w) M" where
  "nextRpcId isNotification =
     (if \<not> isNotification
      then (\<lambda>(s, w). (Inr [(''id'', JNum (int (rpcId s)))], (s\<lparr>rpcId := rpcId s + 1\<rparr>, w)))
      else ret [])"

text \<open>The part of \<open>mcpRpc\<close> that follows the \<open>fetch\<close> and the capture of the session
  id: a notification returns \<open>null\<close>, a status that is not 2xx throws, so does a body
  without an envelope and an envelope with a truthy \<open>error\<close>.\<close>

definition mcpRpcResponse :: "'w Env \<Rightarrow> string \<Rightarrow> bool \<Rightarrow> Response \<Rightarrow> (json option, 'w) M" where
  "mcpRpcResponse env method isNotification res =
     (if isNotification then ret (Some JNull)
      else if \<not> ok res then
        bindM (resText res) (\<lambda>text.
          throw (JsError (''MCP RPC '' @ method @ '' failed (''
                           @ intToString env (int (status res)) @ ''): '' @ text)))
      else
        bindM (parseMcpResponse env res) (\<lambda>data.
          case optProp (Some data) ''error'' of
            Some err \<Rightarrow>
              if truthy err
              then throw (JsError (''MCP RPC '' @ method @ '' error: '' @ rpcErrorText env err))
              else ret (optProp (Some data) ''result'')
          | None \<Rightarrow> ret (optProp (Some data) ''result'')))"

text \<open>The request that \<open>mcpRpc\<close> sends.\<close>

definition mcpRpcRequest ::
  "ClientState \<Rightarrow> string \<Rightarrow> string \<Rightarrow> json option \<Rightarrow> (string \<times> string) list \<Rightarrow>
     (string \<times> json) list \<Rightarrow> Request" where
  "mcpRpcRequest s mcpUrl method params authHeaders idField =
     (let headers0 = mergeHeaders
                       [(''Content-Type'', ''application/json''),
                        (''Accept'', ''application/json, text/event-stream'')]
                       authHeaders;
          headers = (case mcpSessions s mcpUrl of
                       Some sid \<Rightarrow> if sid \<noteq> [] then setHeader ''Mcp-Session-Id'' sid headers0
                                   else headers0
                     | None \<Rightarrow> headers0);
          body0 = [(''jsonrpc'', JStr ''2.0''), (''method'', JStr method)]
                  @ (case params of None \<Rightarrow> [] | Some p \<Rightarrow> [(''params'', p)])
      in \<lparr>req_url = mcpUrl, req_method = ''POST'', req_headers = headers,
          req_body = Some (JObj (body0 @ idField))\<rparr>)"

definition mcpRpc :: "'w Env \<Rightarrow> string \<Rightarrow> string \<Rightarrow> json option \<Rightarrow> bool \<Rightarrow> (json option, 'w) M" where
  "mcpRpc env mcpUrl method params isNotification =
     bindM (getMCPAuthHeaders env (Some mcpUrl)) (\<lambda>authHeaders.
     bindM getState (\<lambda>s.
     bindM (nextRpcId isNotification) (\<lambda>idField.
     bindM (doFetch env (mcpRpcRequest s mcpUrl method params authHeaders idField)) (\<lambda>res.
     thenM (if truthyStr (sessionIdHeader res)
            then modify (\<lambda>s. s\<lparr>mcpSessions := (mcpSessions s)(mcpUrl := sessionIdHeader res)\<rparr>)
            else ret ())
           (mcpRpcResponse env method isNotification res)))))"

definition MCP_PROTOCOL_VERSION :: string where
  "MCP_PROTOCOL_VERSION = ''2024-11-05''"

definition mcpInitialize :: "'w Env \<Rightarrow> string \<Rightarrow> (unit, 'w) M" where
  "mcpInitialize env mcpUrl =
     bindM (mcpRpc env mcpUrl ''initialize''
              (Some (JObj [(''protocolVersion'', JStr MCP_PROTOCOL_VERSION),
                           (''capabilities'', JObj []),
                           (''clientInfo'', JObj [(''name'', JStr ''agentcore''),
                                                  (''version'', JStr ''1.0.0'')])]))
              False) (\<lambda>r1.
     bindM (mcpRpc env mcpUrl ''notifications/initialized'' (Some (JObj [])) True) (\<lambda>r2.
     ret ()))"

text \<open>\<open>if (!_mcpSessions[mcpUrl]) await mcpInitialize(mcpUrl)\<close>.\<close>

definition ensureSession :: "'w Env \<Rightarrow> string \<Rightarrow> (unit, 'w) M" where
  "ensureSession env mcpUrl =
     bindM getState (\<lambda>s.
       if \<not> truthyStr (mcpSessions s mcpUrl) then mcpInitialize env mcpUrl else ret ())"

text \<open>\<open>(result?.tools ?? []) as MCPTool[]\<close>. The declared type of \<open>tools\<close> is an array;
  any other value carries no tools.\<close>

definition toolsOfResult :: "'w Env \<Rightarrow> json option \<Rightarrow> MCPTool list" where
  "toolsOfResult env result =
     (case optProp result ''tools'' of
        Some (JArr xs) \<Rightarrow> map (asMCPTool env) xs
      | _ \<Rightarrow> [])"

definition mcpListTools :: "'w Env \<Rightarrow> string \<Rightarrow> (MCPTool list, 'w) M" where
  "mcpListTools env mcpUrl =
     thenM (ensureSession env mcpUrl)
           (bindM (mcpRpc env mcpUrl ''tools/list'' None False) (\<lambda>result.
              ret (toolsOfResult env result)))"

text \<open>The three returns of \<open>mcpCallTool\<close>: a result with a truthy \<open>content\<close> is returned
  as it is, a string becomes one text item, anything else is stringified
  (\<open>JSON.stringify(undefined)\<close> is \<open>undefined\<close>).\<close>

definition mcpToolResult :: "'w Env \<Rightarrow> json option \<Rightarrow> MCPToolResult" where
  "mcpToolResult env result =
     (if truthyOpt (optProp result ''content'')
      then (case result of Some j \<Rightarrow> asMCPToolResult env j | None \<Rightarrow> textResult None)
      else (case result of
              Some (JStr t) \<Rightarrow> textResult (Some t)
            | Some j \<Rightarrow> textResult (Some (stringify env j))
            | None \<Rightarrow> textResult None))"

definition mcpCallTool :: "'w Env \<Rightarrow> string \<Rightarrow> string \<Rightarrow> json \<Rightarrow> (MCPToolResult, 'w) M" where
  "mcpCallTool env mcpUrl toolName args =
     thenM (ensureSession env mcpUrl)
           (bindM (mcpRpc env mcpUrl ''tools/call''
                     (Some (JObj [(''name'', JStr toolName), (''arguments'', args)])) False)
                  (\<lambda>result. ret (mcpToolResult env result)))"

section \<open>Tool aliases\<close>

definition MINIMAL_TOOL_ALIASES :: "(string \<times> string) list" where
  "MINIMAL_TOOL_ALIASES =
     [(''gmail_read_message'', ''gmail_read_email''),
      (''gmail_list_messages'', ''gmail_list_emails''),
      (''gmail_search_messages'', ''gmail_list_emails''),
      (''contacts_search_contacts'', ''contacts_search''),
      (''contacts_list_contacts'', ''contacts_list''),
      (''drive_search'', ''drive_search_files'')]"

definition normalizeToolName :: "ClientState \<Rightarrow> string \<Rightarrow> string" where
  "normalizeToolName s toolName =
     (let normalized = stripPrefix ''google_'' (dotsToUnderscores toolName)
      in if truthyStr (map_of MINIMAL_TOOL_ALIASES normalized)
         then (case map_of MINIMAL_TOOL_ALIASES normalized of Some a \<Rightarrow> a | None \<Rightarrow> normalized)
         else
           (let validNames = (case currentSession s of
                                None \<Rightarrow> []
                              | Some sess \<Rightarrow> map tool_name (session_tools sess))
            in if length validNames > 0 \<and> normalized \<in> set validNames then normalized
               else normalized))"

section \<open>Fetching tools from one server\<close>

text \<open>\<open>Array.isArray(data?.tools) ? data.tools : Array.isArray(data) ? data : []\<close>.\<close>

definition restToolList :: "json \<Rightarrow> json list" where
  "restToolList data =
     (case optProp (Some data) ''tools'' of
        Some (JArr xs) \<Rightarrow> xs
      | _ \<Rightarrow> (case data of JArr ys \<Rightarrow> ys | _ \<Rightarrow> []))"

text \<open>One pass of the body of the inner REST loop of \<open>fetchToolsFromServer\<close>, with its
  \<open>try { ... } catch {}\<close>: \<open>Some\<close> is the \<open>return\<close> from inside the loop, \<open>None\<close> is
  \<open>continue\<close>.\<close>

definition restDiscoverStep ::
  "'w Env \<Rightarrow> (string \<times> string) list \<Rightarrow> string \<Rightarrow> string \<Rightarrow> ((MCPTool list \<times> string) option, 'w) M" where
  "restDiscoverStep env headers base path =
     tryCatch
       (bindM (doFetch env \<lparr>req_url = base @ path, req_method = ''GET'', req_headers = headers,
                            req_body = None\<rparr>) (\<lambda>res.
          if \<not> ok res then ret None
          else bindM (resJson env res) (\<lambda>data.
                 let list = restToolList data
                 in if length list > 0
                    then thenM (modify (\<lambda>s. s\<lparr>serverProtocol := (serverProtocol s)(base \<mapsto> Rest)\<rparr>))
                               (ret (Some (map (asMCPTool env) list, base)))
                    else ret None)))
       (\<lambda>e. ret None)"

fun restPathLoop ::
  "'w Env \<Rightarrow> (string \<times> string) list \<Rightarrow> string \<Rightarrow> string list \<Rightarrow> ((MCPTool list \<times> string) option, 'w) M" where
  "restPathLoop env headers base [] \<sigma> = (Inr None, \<sigma>)"
| "restPathLoop env headers base (path # paths) \<sigma> =
     (case restDiscoverStep env headers base path \<sigma> of
        (Inr (Some found), \<sigma>') \<Rightarrow> (Inr (Some found), \<sigma>')
      | (Inr None, \<sigma>') \<Rightarrow> restPathLoop env headers base paths \<sigma>'
      | (Inl e, \<sigma>') \<Rightarrow> (Inl e, \<sigma>'))"

fun restBaseLoop ::
  "'w Env \<Rightarrow> (string \<times> string) list \<Rightarrow> string list \<Rightarrow> string list \<Rightarrow> ((MCPTool list \<times> string) option, 'w) M" where
  "restBaseLoop env headers [] paths \<sigma> = (Inr None, \<sigma>)"
| "restBaseLoop env headers (base # bases) paths \<sigma> =
     (case restPathLoop env headers base paths \<sigma> of
        (Inr (Some found), \<sigma>') \<Rightarrow> (Inr (Some found), \<sigma>')
      | (Inr None, \<sigma>') \<Rightarrow> restBaseLoop env headers bases paths \<sigma>'
      | (Inl e, \<sigma>') \<Rightarrow> (Inl e, \<sigma>'))"

text \<open>The first \<open>try\<close> block of \<open>fetchToolsFromServer\<close>: the MCP protocol; \<open>None\<close> when
  it gives no tool or throws.\<close>

definition mcpDiscover :: "'w Env \<Rightarrow> string \<Rightarrow> ((MCPTool list \<times> string) option, 'w) M" where
  "mcpDiscover env baseUrl =
     tryCatch
       (bindM (mcpListTools env baseUrl) (\<lambda>tools.
          if length tools > 0
          then thenM (modify (\<lambda>s. s\<lparr>serverProtocol := (serverProtocol s)(baseUrl \<mapsto> Mcp)\<rparr>))
                     (ret (Some (tools, baseUrl)))
          else ret None))
       (\<lambda>e. ret None)"

text \<open>The lists \<open>bases\<close> and \<open>paths\<close> of the REST fallback.\<close>

definition restBases :: "string \<Rightarrow> string option \<Rightarrow> string list" where
  "restBases baseUrl rootUrl =
     (let baseForRest = stripSuffix ''/mcp'' baseUrl
      in case rootUrl of
           Some r \<Rightarrow> if r \<noteq> [] then [r, baseForRest] else [baseForRest]
         | None \<Rightarrow> [baseForRest])"

definition restPaths :: "string list" where
  "restPaths = [''/api/tools'', ''/tools'']"

definition fetchToolsFromServer ::
  "'w Env \<Rightarrow> string \<Rightarrow> string option \<Rightarrow> string option \<Rightarrow> (MCPTool list \<times> string, 'w) M" where
  "fetchToolsFromServer env baseUrl rootUrl serverName =
     bindM (mcpDiscover env baseUrl) (\<lambda>viaMcp.
       case viaMcp of
         Some found \<Rightarrow> ret found
       | None \<Rightarrow>
           if serverName \<noteq> Some ''travel'' then
             bindM (getMCPAuthHeaders env (Some baseUrl)) (\<lambda>headers.
             bindM (restBaseLoop env headers (restBases baseUrl rootUrl) restPaths) (\<lambda>viaRest.
               case viaRest of
                 Some found \<Rightarrow> ret found
               | None \<Rightarrow> ret ([], baseUrl)))
           else ret ([], baseUrl))"

section \<open>Initialize, list, call\<close>

text \<open>The three reads of \<open>loadPersistedAuth\<close>, under \<open>Promise.all\<close>.\<close>

definition readPersisted :: "'w Env \<Rightarrow> (string option \<times> string option \<times> string option, 'w) M" where
  "readPersisted env =
     (\<lambda>(s, w).
        ((case secureGet env w SECURE_googleAccessToken of
            Inl e \<Rightarrow> Inl e
          | Inr token \<Rightarrow>
              (case secureGet env w SECURE_googleRefreshToken of
                 Inl e \<Rightarrow> Inl e
               | Inr refresh \<Rightarrow>
                   (case secureGet env w SECURE_googleTokenExpiry of
                      Inl e \<Rightarrow> Inl e
                    | Inr expiry \<Rightarrow> Inr (token, refresh, expiry)))),
         (s, w)))"

definition loadPersistedAuth :: "'w Env \<Rightarrow> (unit, 'w) M" where
  "loadPersistedAuth env =
     bindM getState (\<lambda>s.
       if authInitialized s then ret ()
       else
         thenM
           (tryCatch
              (bindM (readPersisted env) (\<lambda>(token, refresh, expiry).
                 if truthyStr token \<and> truthyStr expiry then
                   bindM (now env) (\<lambda>t.
                     case parseInt env (case expiry of Some x \<Rightarrow> x | None \<Rightarrow> []) of
                       Some expiryMs \<Rightarrow>
                         if expiryMs > t
                         then modify (\<lambda>s. s\<lparr>googleAccessToken := token,
                                                 googleRefreshToken := refresh,
                                                 googleTokenExpiry := expiryMs\<rparr>)
                         else clearMCPGoogleToken env
                     | None \<Rightarrow> clearMCPGoogleToken env)
                 else ret ()))
              (\<lambda>e. ret ()))
           (modify (\<lambda>s. s\<lparr>authInitialized := True\<rparr>)))"

text \<open>The inner loop \<open>for (const t of tools) { allTools.push(t); map[t.name] = baseUrlForCalls }\<close>
  on the routing table.\<close>

fun routeTools :: "(string \<rightharpoonup> string) \<Rightarrow> MCPTool list \<Rightarrow> string \<Rightarrow> (string \<rightharpoonup> string)" where
  "routeTools m [] baseUrlForCalls = m"
| "routeTools m (t # ts) baseUrlForCalls =
     routeTools (m(tool_name t \<mapsto> baseUrlForCalls)) ts baseUrlForCalls"

text \<open>The loop of \<open>listMCPTools\<close> over the servers, writing the global routing table; an
  exception of \<open>fetchToolsFromServer\<close> is caught and the next server is tried.\<close>

fun listLoop ::
  "'w Env \<Rightarrow> ServerUrl list \<Rightarrow> MCPTool list \<Rightarrow> ClientState \<times> 'w \<Rightarrow> MCPTool list \<times> ClientState \<times> 'w" where
  "listLoop env [] allTools \<sigma> = (allTools, \<sigma>)"
| "listLoop env (srv # rest) allTools \<sigma> =
     (case fetchToolsFromServer env (srv_baseUrl srv) (srv_rootUrl srv) (Some (srv_name srv)) \<sigma> of
        (Inr (tools, baseUrlForCalls), (s', w')) \<Rightarrow>
          listLoop env rest (allTools @ tools)
            (s'\<lparr>toolToServerMap := routeTools (toolToServerMap s') tools baseUrlForCalls\<rparr>, w')
      | (Inl e, \<sigma>') \<Rightarrow> listLoop env rest allTools \<sigma>')"

definition listMCPTools :: "'w Env \<Rightarrow> (MCPTool list, 'w) M" where
  "listMCPTools env =
     thenM (loadPersistedAuth env)
    (thenM (modify (\<lambda>s. s\<lparr>toolToServerMap := Map.empty\<rparr>))
           (\<lambda>\<sigma>. case listLoop env (getMcpServerUrls env) [] \<sigma> of
                   (allTools, \<sigma>') \<Rightarrow> (Inr allTools, \<sigma>')))"



section \<open>Calling a tool\<close>

text \<open>The server URL that \<open>callMCPTool\<close> resolves for a normalized tool name:
  \<open>toolToServerMap[name] || (MCP_SERVER_URL ? MCP_SERVER_URL.replace(/\<^verbatim>\<open>\/$\<close>/, "") : "")\<close>.\<close>

definition resolveBaseUrl :: "'w Env \<Rightarrow> ClientState \<Rightarrow> string \<Rightarrow> string" where
  "resolveBaseUrl env s normalizedToolName =
     (if truthyStr (toolToServerMap s normalizedToolName)
      then (case toolToServerMap s normalizedToolName of Some u \<Rightarrow> u | None \<Rightarrow> [])
      else if MCP_SERVER_URL env \<noteq> [] then stripSuffix ''/'' (MCP_SERVER_URL env) else [])"

definition callRequest :: "string \<Rightarrow> (string \<times> string) list \<Rightarrow> string \<Rightarrow> json \<Rightarrow> Request" where
  "callRequest url headers normalizedToolName args =
     \<lparr>req_url = url, req_method = ''POST'', req_headers = headers,
      req_body = Some (JObj [(''name'', JStr normalizedToolName), (''arguments'', args)])\<rparr>"

text \<open>
  One pass of the body of the loop \<open>for (const url of callUrls)\<close>. The result is the
  response that the pass leaves in \<open>response\<close>, with \<open>True\<close> when the pass ends in
  \<open>break\<close>.
\<close>

definition restCallStep ::
  "'w Env \<Rightarrow> (string \<times> string) list \<Rightarrow> string \<Rightarrow> json \<Rightarrow> string \<Rightarrow> (bool \<times> Response, 'w) M" where
  "restCallStep env headers normalizedToolName args url =
     bindM (doFetch env (callRequest url headers normalizedToolName args)) (\<lambda>res.
       if ok res then ret (True, res)
       else if status res = 401 then
         bindM getState (\<lambda>s.
           if truthyStr (googleRefreshToken s) then
             bindM (refreshGoogleToken env) (\<lambda>refreshed.
               if refreshed then
                 bindM (getMCPAuthHeaders env None) (\<lambda>retryHeaders.
                 bindM (doFetch env (callRequest url retryHeaders normalizedToolName args)) (\<lambda>retryRes.
                   if ok retryRes then ret (True, retryRes) else ret (False, retryRes)))
               else ret (False, res))
           else
             thenM (clearMCPGoogleToken env)
            (thenM (emitAuthEvent NeedsRelogin)
                   (ret (False, res))))
       else ret (False, res))"

fun restCallLoop ::
  "'w Env \<Rightarrow> (string \<times> string) list \<Rightarrow> string \<Rightarrow> json \<Rightarrow> string list \<Rightarrow> Response option \<Rightarrow>
     (Response option, 'w) M" where
  "restCallLoop env headers normalizedToolName args [] response \<sigma> = (Inr response, \<sigma>)"
| "restCallLoop env headers normalizedToolName args (url # urls) response \<sigma> =
     (case restCallStep env headers normalizedToolName args url \<sigma> of
        (Inl e, \<sigma>') \<Rightarrow> (Inl e, \<sigma>')
      | (Inr (True, res), \<sigma>') \<Rightarrow> (Inr (Some res), \<sigma>')
      | (Inr (False, res), \<sigma>') \<Rightarrow>
          restCallLoop env headers normalizedToolName args urls (Some res) \<sigma>')"

text \<open>The inner \<open>try\<close> of the REST path: \<open>text ? JSON.parse(text) : {}\<close>; \<open>None\<close> is its
  \<open>catch\<close>.\<close>

definition restCallData :: "'w Env \<Rightarrow> Response \<Rightarrow> json option" where
  "restCallData env response =
     (case body response of
        BodyError e \<Rightarrow> None
      | BodyText text \<Rightarrow> if text \<noteq> [] then parseJSON env text else Some (JObj []))"

text \<open>The text of a truthy \<open>data.error\<close> in a template literal.\<close>

definition errorFieldText :: "'w Env \<Rightarrow> json \<Rightarrow> string" where
  "errorFieldText env err = (case err of JStr t \<Rightarrow> t | _ \<Rightarrow> toStr env err)"

text \<open>The end of the REST path, from the response that the loop left.\<close>

definition restCallResult :: "'w Env \<Rightarrow> string \<Rightarrow> Response option \<Rightarrow> (MCPToolResult, 'w) M" where
  "restCallResult env normalizedToolName response =
     (case response of
        None \<Rightarrow> ret (errorResult (''Error: No call endpoint responded for '' @ normalizedToolName))
      | Some res \<Rightarrow>
          (case restCallData env res of
             None \<Rightarrow>
               ret (errorResult (''Error: Server returned '' @ intToString env (int (status res))
                                  @ '' ('' @ statusText res @ ''). Not valid JSON.''))
           | Some data \<Rightarrow>
               bindM (liftE (getProp (Some data) ''error'')) (\<lambda>err.
                 if \<not> ok res then
                   ret (errorResult (''Error: '' @
                          (case err of
                             Some e \<Rightarrow> if truthy e then errorFieldText env e else statusText res
                           | None \<Rightarrow> statusText res)))
                 else if truthyOpt err then
                   ret (errorResult (''Error: '' @
                          (case err of Some e \<Rightarrow> errorFieldText env e | None \<Rightarrow> [])))
                 else
                   (case jsProp data ''result'' of
                      Some (JStr t) \<Rightarrow> ret (textResult (Some t))
                    | Some j \<Rightarrow>
                        if truthyOpt (optProp (Some j) ''content'') then ret (asMCPToolResult env j)
                        else ret (textResult (Some (stringify env j)))
                    | None \<Rightarrow> ret (textResult None)))))"

text \<open>The body of the \<open>try\<close> block of \<open>callMCPTool\<close>.\<close>

definition callMCPToolBody :: "'w Env \<Rightarrow> string \<Rightarrow> json \<Rightarrow> (MCPToolResult, 'w) M" where
  "callMCPToolBody env toolName args =
     bindM getState (\<lambda>s.
       let normalizedToolName = normalizeToolName s toolName;
           baseUrl = resolveBaseUrl env s normalizedToolName
       in if baseUrl = [] then
            ret (errorResult (''No MCP server configured for tool: '' @ normalizedToolName
                   @ ''. Set EXPO_PUBLIC_MCP_SERVER_URL or connect MCP.''))
          else if str_includes baseUrl ''localhost'' \<or> startsWith baseUrl ''http://127.0.0.1'' then
            ret (errorResult (''MCP is pointing at localhost ('' @ baseUrl
                   @ ''). Set EXPO_PUBLIC_MCP_SERVER_URL to your deployed MCP URL.''))
          else if serverProtocol s baseUrl = Some Mcp then
            mcpCallTool env baseUrl normalizedToolName args
          else
            (let restBase = (if stripMcpSuffix baseUrl \<noteq> [] then stripMcpSuffix baseUrl else baseUrl)
             in bindM (getMCPAuthHeaders env (Some baseUrl)) (\<lambda>headers.
                bindM (restCallLoop env headers normalizedToolName args
                         [restBase @ ''/api/call'', restBase @ ''/call''] None) (\<lambda>response.
                restCallResult env normalizedToolName response))))"

definition callMCPTool :: "'w Env \<Rightarrow> string \<Rightarrow> json \<Rightarrow> (MCPToolResult, 'w) M" where
  "callMCPTool env toolName args =
     thenM (modify (\<lambda>s. s\<lparr>log := log s @ [ToolInvoked toolName args]\<rparr>))
    (bindM (tryCatch (callMCPToolBody env toolName args)
              (\<lambda>error. ret (errorResult (''Error calling '' @ toolName @ '': ''
                                          @ err_message error))))
       (\<lambda>result.
          thenM (modify (\<lambda>s. s\<lparr>log := log s @ [ToolReturned result]\<rparr>)) (ret result)))"

section \<open>The agentic loop of chat\<close>

definition MODEL :: string where
  "MODEL = ''gemini-3-flash-preview''"

definition FALLBACK_MODEL :: string where
  "FALLBACK_MODEL = ''gemini-2.5-flash''"

definition MAX_TOOL_ITERATIONS :: nat where
  "MAX_TOOL_ITERATIONS = 8"

text \<open>
  A response of the model: the parts of each candidate (\<open>candidate.content?.parts\<close>) and
  the text that the SDK's \<open>text\<close> accessor gives. A part may carry a function call, a
  text, and the \<open>thought\<close> flag.
\<close>

record FunctionCall =
  fc_name :: string
  fc_args :: "json option"

record Part =
  functionCall :: "FunctionCall option"
  part_text :: "string option"
  thought :: bool

record GenResponse =
  candidates :: "Part list option list"
  resp_text :: "string option"

text \<open>An entry of \<open>contents\<close>: the parts are a text, parts of the model, or function
  responses \<open>{ functionResponse: { name, response: { result } } }\<close>.\<close>

datatype ContentPart =
    TextPart string
  | ModelPart Part
  | FunctionResponsePart string string

record Content =
  role :: string
  content_parts :: "ContentPart list"

record GenRequest =
  gen_model :: string
  gen_contents :: "Content list"
  gen_systemInstruction :: string
  gen_thinking :: bool
  gen_tools :: "ToolEntry list"

text \<open>
  The model backend and \<open>JSON.stringify\<close> on a content item. \<open>generateContent\<close> may
  reject; \<open>'b\<close> is the state of the backend.
\<close>

record 'b ChatEnv =
  generateContent :: "'b \<Rightarrow> GenRequest \<Rightarrow> (js_error + GenResponse) \<times> 'b"
  stringifyItem :: "ContentItem \<Rightarrow> string"

datatype ToolStatus = Pending | Success | Error

record ToolCall =
  tc_name :: string
  tc_args :: json
  tc_result :: "string option"
  tc_status :: ToolStatus

text \<open>The events handed to the optional callback \<open>onEvent\<close> inside the loop, without
  their time stamps. The callback is the caller's; it is taken not to throw.\<close>

datatype AgentEvent = ToolCallEvent string json | ToolResultEvent string bool | CompleteEvent

text \<open>
  What a turn mutates besides the client and the world: the list \<open>toolCalls\<close>, the
  events sent, \<open>lastModelUsed\<close>, and (for observation only) the requests made to the
  model.
\<close>

record TurnState =
  toolCalls :: "ToolCall list"
  events :: "AgentEvent list"
  lastModelUsed :: string
  genLog :: "GenRequest list"

record TurnConfig =
  cfg_systemInstruction :: string
  cfg_useThinking :: bool
  cfg_tools :: "ToolEntry list"

definition genRequest :: "TurnConfig \<Rightarrow> string \<Rightarrow> Content list \<Rightarrow> GenRequest" where
  "genRequest cfg modelToUse currentContents =
     \<lparr>gen_model = modelToUse, gen_contents = currentContents,
      gen_systemInstruction = cfg_systemInstruction cfg, gen_thinking = cfg_useThinking cfg,
      gen_tools = cfg_tools cfg\<rparr>"

text \<open>The loop \<open>for (let attempt = 0; attempt < 2; attempt++)\<close>: the primary model, and
  on any failure the fallback model once; the error of the fallback is rethrown.\<close>

definition generateWithFallback ::
  "'b ChatEnv \<Rightarrow> TurnConfig \<Rightarrow> Content list \<Rightarrow> TurnState \<times> 'b \<Rightarrow>
     (js_error + GenResponse) \<times> TurnState \<times> 'b" where
  "generateWithFallback cenv cfg currentContents =
     (\<lambda>(ts, b).
        let req0 = genRequest cfg MODEL currentContents;
            ts0 = ts\<lparr>genLog := genLog ts @ [req0]\<rparr>
        in case generateContent cenv b req0 of
             (Inr response, b0) \<Rightarrow> (Inr response, ts0\<lparr>lastModelUsed := MODEL\<rparr>, b0)
           | (Inl error0, b0) \<Rightarrow>
               (let req1 = genRequest cfg FALLBACK_MODEL currentContents;
                    ts1 = ts0\<lparr>genLog := genLog ts0 @ [req1]\<rparr>
                in case generateContent cenv b0 req1 of
                     (Inr response, b1) \<Rightarrow> (Inr response, ts1\<lparr>lastModelUsed := FALLBACK_MODEL\<rparr>, b1)
                   | (Inl error1, b1) \<Rightarrow> (Inl error1, ts1, b1)))"

text \<open>\<open>(responseAny.candidates || [])[0]?.content?.parts || []\<close>, and the parts that
  carry a function call.\<close>

definition responseParts :: "GenResponse \<Rightarrow> Part list" where
  "responseParts response =
     (case candidates response of
        [] \<Rightarrow> []
      | firstCandidate # others \<Rightarrow> (case firstCandidate of None \<Rightarrow> [] | Some ps \<Rightarrow> ps))"

definition functionCallParts :: "GenResponse \<Rightarrow> Part list" where
  "functionCallParts response = filter (\<lambda>p. functionCall p \<noteq> None) (responseParts response)"

fun joinLines :: "string list \<Rightarrow> string" where
  "joinLines [] = []"
| "joinLines [x] = x"
| "joinLines (x # y # ys) = x @ [CHR 0x0A] @ joinLines (y # ys)"

text \<open>\<open>result.content.map((c) => c.text || JSON.stringify(c)).join("\n")\<close>.\<close>

definition resultTextOf :: "'b ChatEnv \<Rightarrow> MCPToolResult \<Rightarrow> string" where
  "resultTextOf cenv result =
     joinLines (map (\<lambda>c. case item_text c of
                            Some t \<Rightarrow> if t \<noteq> [] then t else stringifyItem cenv c
                          | None \<Rightarrow> stringifyItem cenv c)
                    (content result))"

text \<open>The record pushed to \<open>toolCalls\<close> for a call and its result.\<close>

definition toolCallRecord :: "'b ChatEnv \<Rightarrow> string \<Rightarrow> json \<Rightarrow> MCPToolResult \<Rightarrow> ToolCall" where
  "toolCallRecord cenv toolName toolArgs result =
     \<lparr>tc_name = toolName, tc_args = toolArgs, tc_result = Some (resultTextOf cenv result),
      tc_status = (if isError result = Some True then Error else Success)\<rparr>"

text \<open>
  The loop \<open>for (const part of functionCallParts)\<close>. It returns the list
  \<open>functionResponses\<close>; an exception of \<open>callMCPTool\<close> would leave the loop.
\<close>

fun dispatchLoop ::
  "'w Env \<Rightarrow> 'b ChatEnv \<Rightarrow> Part list \<Rightarrow> ContentPart list \<Rightarrow> TurnState \<times> ClientState \<times> 'w \<Rightarrow>
     (js_error + ContentPart list) \<times> TurnState \<times> ClientState \<times> 'w" where
  "dispatchLoop env cenv [] functionResponses \<tau> = (Inr functionResponses, \<tau>)"
| "dispatchLoop env cenv (part # rest) functionResponses (ts, \<sigma>) =
     (case functionCall part of
        None \<Rightarrow> dispatchLoop env cenv rest functionResponses (ts, \<sigma>)
      | Some fc \<Rightarrow>
          (let toolName = fc_name fc;
               toolArgs = (case fc_args fc of
                             Some a \<Rightarrow> if truthy a then a else JObj []
                           | None \<Rightarrow> JObj []);
               ts1 = ts\<lparr>events := events ts @ [ToolCallEvent toolName toolArgs]\<rparr>
           in case callMCPTool env toolName toolArgs \<sigma> of
                (Inl e, \<sigma>') \<Rightarrow> (Inl e, ts1, \<sigma>')
              | (Inr result, \<sigma>') \<Rightarrow>
                  (let resultText = resultTextOf cenv result;
                       ts2 = ts1\<lparr>toolCalls := toolCalls ts1
                                    @ [toolCallRecord cenv toolName toolArgs result]\<rparr>;
                       ts3 = ts2\<lparr>events := events ts2
                                    @ [ToolResultEvent toolName (isError result \<noteq> Some True)]\<rparr>
                   in dispatchLoop env cenv rest
                        (functionResponses @ [FunctionResponsePart toolName resultText])
                        (ts3, \<sigma>'))))"

text \<open>How one pass of the body of the \<open>while\<close> loop ends: with the final response and
  \<open>break\<close>, with new contents for the next pass, or in the \<open>catch\<close>.\<close>

datatype IterationEnd = IterFinal GenResponse | IterContinue "Content list" | IterError js_error

definition iterationBody ::
  "'w Env \<Rightarrow> 'b ChatEnv \<Rightarrow> TurnConfig \<Rightarrow> Content list \<Rightarrow> TurnState \<times> (ClientState \<times> 'w) \<times> 'b \<Rightarrow>
     IterationEnd \<times> TurnState \<times> (ClientState \<times> 'w) \<times> 'b" where
  "iterationBody env cenv cfg currentContents =
     (\<lambda>(ts, \<sigma>, b).
        case generateWithFallback cenv cfg currentContents (ts, b) of
          (Inl error, ts1, b1) \<Rightarrow> (IterError error, ts1, \<sigma>, b1)
        | (Inr response, ts1, b1) \<Rightarrow>
            if length (functionCallParts response) = 0 then (IterFinal response, ts1, \<sigma>, b1)
            else
              (case dispatchLoop env cenv (functionCallParts response) [] (ts1, \<sigma>) of
                 (Inl error, ts2, \<sigma>2) \<Rightarrow> (IterError error, ts2, \<sigma>2, b1)
               | (Inr functionResponses, ts2, \<sigma>2) \<Rightarrow>
                   (IterContinue
                      (currentContents
                       @ [\<lparr>role = ''model'',
                            content_parts = map ModelPart (functionCallParts response)\<rparr>,
                          \<lparr>role = ''user'', content_parts = functionResponses\<rparr>]),
                    ts2, \<sigma>2, b1)))"

text \<open>How the \<open>while\<close> loop is left: past its end, with \<open>finalResponse\<close> and the
  value of \<open>iteration\<close>, or by the \<open>return\<close> in the \<open>catch\<close>.\<close>

datatype LoopEnd = LoopExit "GenResponse option" nat | LoopCaught js_error nat

function agenticLoop ::
  "'w Env \<Rightarrow> 'b ChatEnv \<Rightarrow> TurnConfig \<Rightarrow> nat \<Rightarrow> Content list \<Rightarrow>
     TurnState \<times> (ClientState \<times> 'w) \<times> 'b \<Rightarrow> LoopEnd \<times> TurnState \<times> (ClientState \<times> 'w) \<times> 'b" where
  "agenticLoop env cenv cfg iteration currentContents \<tau> =
     (if iteration < MAX_TOOL_ITERATIONS then
        (case iterationBody env cenv cfg currentContents \<tau> of
           (IterFinal response, \<tau>') \<Rightarrow> (LoopExit (Some response) (iteration + 1), \<tau>')
         | (IterError error, \<tau>') \<Rightarrow> (LoopCaught error (iteration + 1), \<tau>')
         | (IterContinue contents', \<tau>') \<Rightarrow>
             agenticLoop env cenv cfg (iteration + 1) contents' \<tau>')
      else (LoopExit None iteration, \<tau>))"
  by pat_completeness auto
termination
  by (relation "measure (\<lambda>(env, cenv, cfg, iteration, currentContents, \<tau>).
                  MAX_TOOL_ITERATIONS - iteration)") auto

record AgentResponse =
  ar_text :: string
  agentName :: string
  ar_toolCalls :: "ToolCall list"
  ar_thinking :: "string option"
  ar_model :: "string option"
  ar_error :: "string option"

definition FALLBACK_TEXT :: string where
  "FALLBACK_TEXT =
     ''I wasn'' @ [CHR 0x27] @ ''t able to complete that request. Could you try again?''"

text \<open>
  \<open>chat\<close> from the agentic loop on, for a turn whose instructions, history and tools are
  built: the loop, then either the response of the \<open>catch\<close> or the final response with
  \<open>finalResponse?.text || "I wasn't able to complete that request. Could you try again?"\<close>
  and the \<open>complete\<close> event. The result carries the value of \<open>iteration\<close> as well.
\<close>

definition chat ::
  "'w Env \<Rightarrow> 'b ChatEnv \<Rightarrow> string \<Rightarrow> TurnConfig \<Rightarrow> Content list \<Rightarrow> (ClientState \<times> 'w) \<times> 'b \<Rightarrow>
     (AgentResponse \<times> nat) \<times> TurnState \<times> (ClientState \<times> 'w) \<times> 'b" where
  "chat env cenv soulName cfg contents =
     (\<lambda>(\<sigma>, b).
        case agenticLoop env cenv cfg 0 contents
               (\<lparr>toolCalls = [], events = [], lastModelUsed = MODEL, genLog = []\<rparr>, \<sigma>, b) of
          (LoopCaught error iteration, ts, \<sigma>', b') \<Rightarrow>
            ((\<lparr>ar_text = ''I encountered an error: '' @ err_message error
                          @ ''. Let me try a different approach.'',
               agentName = soulName, ar_toolCalls = toolCalls ts, ar_thinking = None,
               ar_model = None, ar_error = Some (err_message error)\<rparr>, iteration),
             ts, \<sigma>', b')
        | (LoopExit finalResponse iteration, ts, \<sigma>', b') \<Rightarrow>
            ((\<lparr>ar_text =
                 (case finalResponse of
                    None \<Rightarrow> FALLBACK_TEXT
                  | Some response \<Rightarrow>
                      (case resp_text response of
                         Some t \<Rightarrow> if t \<noteq> [] then t else FALLBACK_TEXT
                       | None \<Rightarrow> FALLBACK_TEXT)),
               agentName = soulName, ar_toolCalls = toolCalls ts,
               ar_thinking =
                 (case finalResponse of
                    None \<Rightarrow> None
                  | Some response \<Rightarrow>
                      (if cfg_useThinking cfg
                       then (case find (\<lambda>p. thought p) (responseParts response) of
                               Some thoughtPart \<Rightarrow> part_text thoughtPart
                             | None \<Rightarrow> None)
                       else None)),
               ar_model = Some (lastModelUsed ts), ar_error = None\<rparr>, iteration),
             ts\<lparr>events := events ts @ [CompleteEvent]\<rparr>, \<sigma>', b'))"

section \<open>Error-tagged results and failed calls\<close>

text \<open>A result that is tagged as an error and carries one text item with a message.\<close>

definition isErrorResult :: "MCPToolResult \<Rightarrow> bool" where
  "isErrorResult r \<longleftrightarrow>
     isError r = Some True \<and>
     (case content r of
        [c] \<Rightarrow> item_type c = ''text'' \<and> item_text c \<noteq> None
      | _ \<Rightarrow> False)"

definition isLocalhost :: "string \<Rightarrow> bool" where
  "isLocalhost baseUrl \<longleftrightarrow> str_includes baseUrl ''localhost'' \<or> startsWith baseUrl ''http://127.0.0.1''"




text \<open>A client without tokens, sessions or routing table.\<close>

definition clientFresh :: ClientState where
  "clientFresh =
     \<lparr>googleAccessToken = None, googleRefreshToken = None,
      googleTokenExpiry = 0, authInitialized = True, mcpSessions = Map.empty,
      serverProtocol = Map.empty, rpcId = 1, currentSession = None,
      toolToServerMap = Map.empty, log = []\<rparr>"

text \<open>An environment whose Google Workspace endpoint is a localhost, on a network that
  rejects every request.\<close>

definition envLocal :: "unit Env" where
  "envLocal = envDown\<lparr>MCP_GOOGLE_URL := ''http://localhost:8000/mcp''\<rparr>"

text \<open>Whether a log entry is a request of the REST call path (a body
  \<open>{ name, arguments }\<close>), and the number of such requests sent to a URL.\<close>

fun isCallPost :: "LogEntry \<Rightarrow> bool" where
  "isCallPost (Fetched req) =
     (case req_body req of
        Some (JObj ((k, v) # rest)) \<Rightarrow> k = ''name''
      | _ \<Rightarrow> False)"
| "isCallPost x = False"

fun postsTo :: "string \<Rightarrow> LogEntry list \<Rightarrow> nat" where
  "postsTo url [] = 0"
| "postsTo url (x # xs) =
     (case x of
        Fetched req \<Rightarrow> (if isCallPost x \<and> req_url req = url then 1 else 0) + postsTo url xs
      | _ \<Rightarrow> postsTo url xs)"




section \<open>Discovery passes\<close>

text \<open>Discovery of one configured server, as both loops call it.\<close>

definition discover :: "'w Env \<Rightarrow> ServerUrl \<Rightarrow> (MCPTool list \<times> string, 'w) M" where
  "discover env srv =
     fetchToolsFromServer env (srv_baseUrl srv) (srv_rootUrl srv) (Some (srv_name srv))"

text \<open>
  What each server contributes to a discovery pass, in the order of the servers: the tools
  and the base URL that its discovery returns in the state the pass has reached, and no
  tool when its discovery throws. \<open>upd\<close> is what the pass does to the client state
  after a server: \<open>listMCPTools\<close> routes the tools in the global table,
  \<open>initializeMCPConnection\<close> leaves the state alone.
\<close>

fun contributions ::
  "(ClientState \<Rightarrow> MCPTool list \<Rightarrow> string \<Rightarrow> ClientState) \<Rightarrow> 'w Env \<Rightarrow> ServerUrl list \<Rightarrow>
     ClientState \<times> 'w \<Rightarrow> (MCPTool list \<times> string) list" where
  "contributions upd env [] \<sigma> = []"
| "contributions upd env (srv # rest) \<sigma> =
     (case discover env srv \<sigma> of
        (Inr (tools, baseUrlForCalls), (s', w')) \<Rightarrow>
          (tools, baseUrlForCalls) # contributions upd env rest (upd s' tools baseUrlForCalls, w')
      | (Inl e, \<sigma>') \<Rightarrow> ([], srv_baseUrl srv) # contributions upd env rest \<sigma>')"

definition routeInState :: "ClientState \<Rightarrow> MCPTool list \<Rightarrow> string \<Rightarrow> ClientState" where
  "routeInState s tools baseUrlForCalls =
     s\<lparr>toolToServerMap := routeTools (toolToServerMap s) tools baseUrlForCalls\<rparr>"


text \<open>The base URL of the last contribution that holds a tool of the given name.\<close>

fun lastContributor :: "(MCPTool list \<times> string) list \<Rightarrow> string \<Rightarrow> string option" where
  "lastContributor [] n = None"
| "lastContributor ((tools, base) # ds) n =
     (case lastContributor ds n of
        Some b \<Rightarrow> Some b
      | None \<Rightarrow> if n \<in> set (map tool_name tools) then Some base else None)"

text \<open>The state in which the loop of \<open>listMCPTools\<close> starts: the persisted auth is
  loaded and the routing table is empty.\<close>

definition listStart :: "'w Env \<Rightarrow> ClientState \<times> 'w \<Rightarrow> ClientState \<times> 'w" where
  "listStart env \<sigma> =
     snd (thenM (loadPersistedAuth env)
                (modify (\<lambda>s. s\<lparr>toolToServerMap := Map.empty\<rparr>)) \<sigma>)"

text \<open>The URLs that the discovery of a server requests, and a network on which every
  request to one of them is rejected.\<close>

definition discoveryUrls :: "ServerUrl \<Rightarrow> string list" where
  "discoveryUrls srv =
     srv_baseUrl srv
     # concat (map (\<lambda>base. map (\<lambda>path. base @ path) restPaths)
                   (restBases (srv_baseUrl srv) (srv_rootUrl srv)))"

definition transportDown :: "'w Env \<Rightarrow> ServerUrl \<Rightarrow> bool" where
  "transportDown env srv \<longleftrightarrow>
     (\<forall>w req. req_url req \<in> set (discoveryUrls srv) \<longrightarrow> isl (fst (fetch env w req)))"

text \<open>
  Two configured servers that both list a tool named \<open>search\<close> over the MCP protocol,
  and the same configuration with the Google Workspace server unreachable.
\<close>

definition parseList :: "string \<Rightarrow> json option" where
  "parseList t =
     (if t = ''LIST''
      then Some (JObj [(''result'', JObj [(''tools'', JArr [JObj [(''name'', JStr ''search'')]])])])
      else None)"


definition envHalf :: "unit Env" where
  "envHalf = (mkEnv (\<lambda>req. if startsWith (req_url req) ''https://g.example''
                           then Inl (JsError ''Network request failed'')
                           else Inr (mkResponse 200 ''LIST'')) parseList)
              \<lparr>MCP_TRAVEL_URL := ''https://t.example/mcp''\<rparr>"

text \<open>A function of the client that leaves the routing table as it is.\<close>

definition keepsRouting :: "('a, 'w) M \<Rightarrow> bool" where
  "keepsRouting m \<longleftrightarrow>
     (\<forall>s w r s' w'. m (s, w) = (r, s', w') \<longrightarrow> toolToServerMap s' = toolToServerMap s)"

text \<open>The two servers of the example configurations.\<close>

definition googleSrv :: ServerUrl where
  "googleSrv = \<lparr>srv_baseUrl = ''https://g.example/mcp'', srv_name = ''google'',
                 srv_rootUrl = Some ''https://g.example''\<rparr>"

definition travelSrv :: ServerUrl where
  "travelSrv = \<lparr>srv_baseUrl = ''https://t.example/mcp'', srv_name = ''travel'',
                 srv_rootUrl = Some ''https://t.example''\<rparr>"

declare agenticLoop.simps [simp del]

section \<open>Observing a turn\<close>


text \<open>The calls of \<open>callMCPTool\<close> that a piece of the log records, and the results
  returned, both in order.\<close>

fun invokedCalls :: "LogEntry list \<Rightarrow> (string \<times> json) list" where
  "invokedCalls [] = []"
| "invokedCalls (ToolInvoked n a # xs) = (n, a) # invokedCalls xs"
| "invokedCalls (x # xs) = invokedCalls xs"

fun returnedResults :: "LogEntry list \<Rightarrow> MCPToolResult list" where
  "returnedResults [] = []"
| "returnedResults (ToolReturned r # xs) = r # returnedResults xs"
| "returnedResults (x # xs) = returnedResults xs"

fun notToolEntry :: "LogEntry \<Rightarrow> bool" where
  "notToolEntry (ToolInvoked n a) = False"
| "notToolEntry (ToolReturned r) = False"
| "notToolEntry x = True"

text \<open>A function of the client that adds to the log only entries that are not calls or
  results of \<open>callMCPTool\<close>.\<close>

definition logsOnly :: "('a, 'w) M \<Rightarrow> bool" where
  "logsOnly m \<longleftrightarrow>
     (\<forall>s w r s' w'. m (s, w) = (r, s', w') \<longrightarrow>
        (\<exists>d. log s' = log s @ d \<and> list_all notToolEntry d))"

text \<open>The records and the function responses that a turn makes of calls and their
  results.\<close>

definition recordsOf :: "'b ChatEnv \<Rightarrow> LogEntry list \<Rightarrow> ToolCall list" where
  "recordsOf cenv d =
     map (\<lambda>((n, a), r). toolCallRecord cenv n a r) (zip (invokedCalls d) (returnedResults d))"

definition responsesOf :: "'b ChatEnv \<Rightarrow> LogEntry list \<Rightarrow> ContentPart list" where
  "responsesOf cenv d =
     map (\<lambda>((n, a), r). FunctionResponsePart n (resultTextOf cenv r))
         (zip (invokedCalls d) (returnedResults d))"



definition cfgW :: TurnConfig where
  "cfgW = \<lparr>cfg_systemInstruction = ''You are 2nd Brain'', cfg_useThinking = True,
           cfg_tools = [FunctionDeclarations [toFunctionDeclaration (mkTool ''gmail_send'')]]\<rparr>"

definition contentsW :: "Content list" where
  "contentsW = [\<lparr>role = ''user'', content_parts = [TextPart ''send the mail'']\<rparr>]"





text \<open>A backend that rejects every request to the primary model and answers the fallback
  model with a text.\<close>

definition cenvFallback :: "unit ChatEnv" where
  "cenvFallback =
     \<lparr>generateContent =
        (\<lambda>b req. if gen_model req = MODEL then (Inl (JsError ''The model is overloaded''), b)
                  else (Inr \<lparr>candidates =
                              [Some [\<lparr>functionCall = None, part_text = Some ''Done.'',
                                      thought = False\<rparr>]],
                            resp_text = Some ''Done.''\<rparr>, b)),
      stringifyItem = (\<lambda>c. ''item'')\<rparr>"

section \<open>Properties of skill detection\<close>









section \<open>Properties of the tool declarations\<close>

lemma buildMCPFunctionDeclarations_names:
  "d \<in> set (buildMCPFunctionDeclarations state) \<Longrightarrow> fd_name d \<notin> set EXCLUDED_MCP_TOOLS"
  by (auto simp: buildMCPFunctionDeclarations_def toFunctionDeclaration_def split: if_splits)

text \<open>
  C7. The tools declared for a turn never carry a deny-listed name (\<open>search\<close>,
  \<open>get_cache_stats\<close>, \<open>clear_cache\<close>); MCP function declarations are declared only
  when the workspace or the travel flag is set; \<open>googleSearch\<close> is declared only when
  the search flag is set and no MCP function declaration is; the two are never declared
  together.
\<close>

theorem chat_tools_spec:
  "(\<forall>fs d. FunctionDeclarations fs \<in> set (chat_tools state flags) \<longrightarrow> d \<in> set fs \<longrightarrow>
       fd_name d \<notin> {''search'', ''get_cache_stats'', ''clear_cache''})
   \<and> ((\<exists>fs. FunctionDeclarations fs \<in> set (chat_tools state flags)) \<longrightarrow>
         useWorkspace flags \<or> useTravel flags)
   \<and> (GoogleSearch \<in> set (chat_tools state flags) \<longrightarrow>
         useSearch flags \<and> (\<forall>fs. FunctionDeclarations fs \<notin> set (chat_tools state flags))
         \<and> (useWorkspace flags \<or> useTravel flags \<longrightarrow> buildMCPFunctionDeclarations state = []))
   \<and> \<not> (GoogleSearch \<in> set (chat_tools state flags)
         \<and> (\<exists>fs. FunctionDeclarations fs \<in> set (chat_tools state flags)))"
proof -
  have names: "\<And>d. d \<in> set (buildMCPFunctionDeclarations state) \<Longrightarrow>
      fd_name d \<notin> {''search'', ''get_cache_stats'', ''clear_cache''}"
    using buildMCPFunctionDeclarations_names [of _ state]
    by (simp add: EXCLUDED_MCP_TOOLS_def)
  show ?thesis
    using names by (auto simp: chat_tools_def Let_def split: if_splits)
qed

text \<open>
  The witness of C7: with the workspace flag the one tool left after the deny-list is
  declared and \<open>googleSearch\<close> is not; with the search flag alone \<open>googleSearch\<close> is
  declared and no MCP function is.
\<close>

theorem chat_tools_spec_witness:
  "chat_tools brainW \<lparr>useWorkspace = True, useCalendar = False, useTravel = False, useSearch = True\<rparr>
     = [FunctionDeclarations [toFunctionDeclaration (mkTool ''gmail_send'')]]
   \<and> fd_name (toFunctionDeclaration (mkTool ''gmail_send''))
        \<notin> {''search'', ''get_cache_stats'', ''clear_cache''}
   \<and> chat_tools brainW \<lparr>useWorkspace = False, useCalendar = False, useTravel = False, useSearch = True\<rparr>
     = [GoogleSearch]"
proof -
  let ?f = "\<lparr>useWorkspace = True, useCalendar = False, useTravel = False, useSearch = True\<rparr>"
  let ?g = "\<lparr>useWorkspace = False, useCalendar = False, useTravel = False, useSearch = True\<rparr>"
  have v: "chat_tools brainW ?f = [FunctionDeclarations [toFunctionDeclaration (mkTool ''gmail_send'')]]"
    by (simp add: chat_tools_def buildMCPFunctionDeclarations_def brainW_def mkTool_def
        EXCLUDED_MCP_TOOLS_def)
  have w: "chat_tools brainW ?g = [GoogleSearch]"
    by (simp add: chat_tools_def)
  from chat_tools_spec [of brainW ?f] chat_tools_spec [of brainW ?g] v w
  show ?thesis by simp
qed

section \<open>Properties of the auth store\<close>

lemmas M_defs = ret_def throw_def bindM_def thenM_def tryCatch_def liftE_def getState_def
  modify_def now_def

lemma bindM_E:
  assumes "bindM m f \<sigma> = (r, \<sigma>2)"
  obtains (err) e where "m \<sigma> = (Inl e, \<sigma>2)" "r = Inl e"
        | (val) a \<sigma>1 where "m \<sigma> = (Inr a, \<sigma>1)" "f a \<sigma>1 = (r, \<sigma>2)"
  using assms by (auto simp: bindM_def split: prod.splits sum.splits)

lemma thenM_E:
  assumes "thenM m n \<sigma> = (r, \<sigma>2)"
  obtains (err) e where "m \<sigma> = (Inl e, \<sigma>2)" "r = Inl e"
        | (val) \<sigma>1 where "m \<sigma> = (Inr (), \<sigma>1)" "n \<sigma>1 = (r, \<sigma>2)"
  using assms unfolding thenM_def by (erule bindM_E) auto

lemma tryCatch_E:
  assumes "tryCatch m h \<sigma> = (r, \<sigma>2)"
  obtains (val) a where "m \<sigma> = (Inr a, \<sigma>2)" "r = Inr a"
        | (err) e \<sigma>1 where "m \<sigma> = (Inl e, \<sigma>1)" "h e \<sigma>1 = (r, \<sigma>2)"
  using assms by (auto simp: tryCatch_def split: prod.splits sum.splits)

lemma clearMCPGoogleToken_run:
  "clearMCPGoogleToken env (s, w) =
     (Inr (), s\<lparr>googleAccessToken := None, googleRefreshToken := None, googleTokenExpiry := 0,
               log := log s @ [Emitted TokenCleared]\<rparr>,
      foldl (secureDelete env) w
        [SECURE_googleAccessToken, SECURE_googleRefreshToken, SECURE_googleTokenExpiry])"
  by (simp add: clearMCPGoogleToken_def M_defs deleteSecureItems_def emitAuthEvent_def)

lemma failRefresh_run:
  "failRefresh env (s, w) =
     (Inr False, s\<lparr>googleAccessToken := None, googleRefreshToken := None, googleTokenExpiry := 0,
               log := log s @ [Emitted TokenCleared, Emitted NeedsRelogin]\<rparr>,
      foldl (secureDelete env) w
        [SECURE_googleAccessToken, SECURE_googleRefreshToken, SECURE_googleTokenExpiry])"
  by (simp add: failRefresh_def clearMCPGoogleToken_run M_defs emitAuthEvent_def)

lemma setMCPGoogleToken_log:
  "setMCPGoogleToken env a n r (s, w) = (x, s', w') \<Longrightarrow> log s' = log s"
  by (auto simp: setMCPGoogleToken_def M_defs setSecureItems_def split: prod.splits option.splits if_splits sum.splits)

lemma resJson_state: "resJson env res \<sigma> = (r, \<sigma>') \<Longrightarrow> \<sigma>' = \<sigma>"
  by (auto simp: resJson_def resText_def M_defs split: Body.splits option.splits sum.splits)

lemma liftE_state: "liftE x \<sigma> = (r, \<sigma>') \<Longrightarrow> \<sigma>' = \<sigma> \<and> r = x"
  by (auto simp: liftE_def)

lemma refreshFromResponse_outcome:
  assumes "refreshFromResponse env res (s, w) = (r, s', w')"
  shows "refreshOutcome s r s'"
proof (cases "ok res")
  case False
  then show ?thesis using assms
    by (auto simp: refreshFromResponse_def failRefresh_run refreshOutcome_def)
next
  case True
  from assms True have a: "bindM (resJson env res) (\<lambda>data.
        bindM (liftE (getProp (Some data) ''access_token'')) (\<lambda>access_token.
          if truthyOpt access_token then
            bindM getState (\<lambda>s'.
            thenM (setMCPGoogleToken env
                     (refreshedAccessToken env access_token)
                     (refreshedExpiresIn env data)
                     (if truthyStr (googleRefreshToken s') then googleRefreshToken s' else None))
           (thenM (emitAuthEvent TokenRefreshed) (ret True)))
          else failRefresh env)) (s, w) = (r, s', w')"
    by (simp add: refreshFromResponse_def)
  from a show ?thesis
  proof (cases rule: bindM_E)
    case (err e)
    then show ?thesis by (auto dest: resJson_state simp: refreshOutcome_def)
  next
    case (val data \<sigma>1)
    then have s1: "\<sigma>1 = (s, w)" by (auto dest: resJson_state)
    from val(2) show ?thesis unfolding s1
    proof (cases rule: bindM_E)
      case (err e)
      then show ?thesis by (auto dest: liftE_state simp: refreshOutcome_def)
    next
      case (val at \<sigma>2)
      then have s2: "\<sigma>2 = (s, w)" by (auto dest: liftE_state)
      show ?thesis
      proof (cases "truthyOpt at")
        case False
        then show ?thesis using val(2) unfolding s2
          by (auto simp: failRefresh_run refreshOutcome_def)
      next
        case True
        with val(2) have b: "thenM (setMCPGoogleToken env
                     (refreshedAccessToken env at)
                     (refreshedExpiresIn env data)
                     (if truthyStr (googleRefreshToken s) then googleRefreshToken s else None))
           (thenM (emitAuthEvent TokenRefreshed) (ret True)) (s, w) = (r, s', w')"
          unfolding s2 by (simp add: bindM_def getState_def)
        from b show ?thesis
        proof (cases rule: thenM_E)
          case (err e)
          then show ?thesis by (auto dest: setMCPGoogleToken_log simp: refreshOutcome_def)
        next
          case (val \<sigma>3)
          obtain s3 w3 where s3: "\<sigma>3 = (s3, w3)" by (cases \<sigma>3)
          from val(1) have "log s3 = log s" unfolding s3 by (rule setMCPGoogleToken_log)
          then show ?thesis using val(2) unfolding s3
            by (auto simp: M_defs emitAuthEvent_def refreshOutcome_def)
        qed
      qed
    qed
  qed
qed


lemma doFetch_log:
  "doFetch env req (s, w) = (r, s', w') \<Longrightarrow> s' = s\<lparr>log := log s @ [Fetched req]\<rparr>"
  by (auto simp: doFetch_def split: prod.splits)

lemma isCallPost_refreshRequest [simp]: "\<not> isCallPost (Fetched (refreshRequest b t))"
  by (simp add: refreshRequest_def)

lemma isCallPost_callRequest [simp]: "isCallPost (Fetched (callRequest url hs n a))"
  by (simp add: callRequest_def)

text \<open>The log entries and the result of one call of refreshGoogleToken.\<close>

lemma refreshGoogleToken_outcome:
  assumes "refreshGoogleToken env (s, w) = (r, s', w')"
  shows "\<exists>b d. r = Inr b \<and> log s' = log s @ RefreshCalled # d
           \<and> count_list d RefreshCalled = 0
           \<and> count_list d (Emitted NeedsRelogin) =
                (if b \<or> (\<not> truthyStr (googleRefreshToken s) \<and> \<not> truthyStr (googleAccessToken s))
                 then 0 else 1)
           \<and> length (filter isFetched d) \<le> 1
           \<and> filter isCallPost d = []
           \<and> (\<not> b \<and> truthyStr (googleAccessToken s) \<longrightarrow> googleAccessToken s' = None)"
proof -
  let ?s0 = "s\<lparr>log := log s @ [RefreshCalled]\<rparr>"
  show ?thesis
  proof (cases "truthyStr (googleRefreshToken s)")
    case False
    with assms have e: "thenM (if truthyStr (googleAccessToken s)
                then thenM (clearMCPGoogleToken env) (emitAuthEvent NeedsRelogin)
                else ret ())
               (ret False) (?s0, w) = (r, s', w')"
      by (simp add: refreshGoogleToken_def thenM_def bindM_def modify_def getState_def)
    show ?thesis
    proof (cases "truthyStr (googleAccessToken s)")
      case True
      with e have "r = Inr False" "log s' = log s @ RefreshCalled # [Emitted TokenCleared, Emitted NeedsRelogin]"
        "googleAccessToken s' = None"
        by (auto simp: M_defs clearMCPGoogleToken_run emitAuthEvent_def)
      then show ?thesis using True False
        by (intro exI [of _ False] exI [of _ "[Emitted TokenCleared, Emitted NeedsRelogin]"]) simp
    next
      case na: False
      with e have "r = Inr False" "log s' = log s @ RefreshCalled # []"
        by (auto simp: M_defs)
      then show ?thesis using na False
        by (intro exI [of _ False] exI [of _ "[]"]) simp
    qed
  next
    case rt: True
    define serverBase where "serverBase =
               (if MCP_SERVER_URL env \<noteq> []
                then stripSuffix ''/'' (stripMcpSuffix (MCP_SERVER_URL env)) else [])"
    show ?thesis
    proof (cases "serverBase = []")
      case True
      from assms rt True [unfolded serverBase_def]
      have "failRefresh env (?s0, w) = (r, s', w')"
        by (simp add: refreshGoogleToken_def thenM_def bindM_def modify_def getState_def Let_def)
      then have "r = Inr False" "log s' = log s @ RefreshCalled # [Emitted TokenCleared, Emitted NeedsRelogin]"
        "googleAccessToken s' = None"
        by (auto simp: failRefresh_run)
      then show ?thesis using rt
        by (intro exI [of _ False] exI [of _ "[Emitted TokenCleared, Emitted NeedsRelogin]"]) simp
    next
      case False
      let ?req = "refreshRequest serverBase (googleRefreshToken s)"
      let ?s1 = "s\<lparr>log := log s @ [RefreshCalled, Fetched ?req]\<rparr>"
      from assms rt False [unfolded serverBase_def] have t: "tryCatch
                (bindM (doFetch env ?req) (refreshFromResponse env))
                (\<lambda>e. failRefresh env) (?s0, w) = (r, s', w')"
        by (simp add: refreshGoogleToken_def thenM_def bindM_def modify_def getState_def
            serverBase_def Let_def)
      have body: "refreshOutcome ?s1 x s1"
        if "bindM (doFetch env ?req) (refreshFromResponse env) (?s0, w) = (x, s1, w1)" for x s1 w1
        using that
      proof (cases rule: bindM_E)
        case (err e)
        then show ?thesis by (auto dest: doFetch_log simp: refreshOutcome_def)
      next
        case (val res \<sigma>1)
        obtain sa wa where sa: "\<sigma>1 = (sa, wa)" by (cases \<sigma>1)
        from val(1) have eq: "sa = ?s1"
          unfolding sa by (auto dest: doFetch_log)
        have "refreshOutcome sa x s1"
          by (rule refreshFromResponse_outcome [OF val(2) [unfolded sa]])
        then show ?thesis using eq by simp
      qed
      from t show ?thesis
      proof (cases rule: tryCatch_E)
        case (val b)
        from body [OF val(1)] val(2) show ?thesis
        proof (cases b)
          case True
          with body [OF val(1)] val(2)
          have "r = Inr True" "log s' = log s @ RefreshCalled # [Fetched ?req, Emitted TokenRefreshed]"
            by (auto simp: refreshOutcome_def)
          then show ?thesis
            by (intro exI [of _ True] exI [of _ "[Fetched ?req, Emitted TokenRefreshed]"])
               (simp add: refreshRequest_def)
        next
          case False
          with body [OF val(1)] val(2)
          have "r = Inr False"
            "log s' = log s @ RefreshCalled # [Fetched ?req, Emitted TokenCleared, Emitted NeedsRelogin]"
            "googleAccessToken s' = None"
            by (auto simp: refreshOutcome_def)
          then show ?thesis using rt
            by (intro exI [of _ False]
                  exI [of _ "[Fetched ?req, Emitted TokenCleared, Emitted NeedsRelogin]"])
               (simp add: refreshRequest_def)
        qed
      next
        case (err e \<sigma>1)
        obtain sa wa where sa: "\<sigma>1 = (sa, wa)" by (cases \<sigma>1)
        from body [OF err(1) [unfolded sa]] have "log sa = log s @ [RefreshCalled, Fetched ?req]"
          by (simp add: refreshOutcome_def)
        with err(2) have "r = Inr False"
            "log s' = log s @ RefreshCalled # [Fetched ?req, Emitted TokenCleared, Emitted NeedsRelogin]"
            "googleAccessToken s' = None"
          unfolding sa by (auto simp: failRefresh_run)
        then show ?thesis using rt
          by (intro exI [of _ False]
                exI [of _ "[Fetched ?req, Emitted TokenCleared, Emitted NeedsRelogin]"])
               (simp add: refreshRequest_def)
      qed
    qed
  qed
qed


lemma getMCPAuthHeaders_cleared:
  assumes "googleAccessToken s = None"
  shows "\<exists>h. getMCPAuthHeaders env u (s, w) = (Inr h, s, w) \<and> map_of h ''Authorization'' = None"
  using assms by (simp add: getMCPAuthHeaders_def Let_def M_defs truthyStr_def)

lemma getMCPAuthHeadersMany_cleared:
  assumes "googleAccessToken s = None"
  shows "case getMCPAuthHeadersMany env urls (s, w) of
           (rs, s2, w2) \<Rightarrow> s2 = s \<and> w2 = w
              \<and> (\<forall>x \<in> set rs. \<exists>h. x = Inr h \<and> map_of h ''Authorization'' = None)"
proof (induction urls)
  case Nil
  then show ?case by simp
next
  case (Cons u urls)
  from getMCPAuthHeaders_cleared [OF assms, of env u w]
  obtain h where h: "getMCPAuthHeaders env u (s, w) = (Inr h, s, w)"
     "map_of h ''Authorization'' = None" by blast
  show ?case using Cons.IH h by (auto split: prod.splits)
qed

lemma getMCPAuthHeaders_refreshing:
  assumes nk: "\<not> (isTravelUrl env mcpUrl \<and> trim (MCP_API_KEY env) \<noteq> [])"
    and tok: "truthyStr (googleAccessToken s)"
    and exp: "googleTokenExpiry s \<le> dateNow env w"
    and rf: "refreshGoogleToken env (s, w) = (Inr b, sr, wr)"
  shows "getMCPAuthHeaders env mcpUrl (s, w) =
          (Inr (if truthyStr (googleAccessToken sr) \<and> googleTokenExpiry sr > dateNow env wr
                then setHeader ''Authorization''
                       (''Bearer '' @ (case googleAccessToken sr of None \<Rightarrow> [] | Some a \<Rightarrow> a))
                       [(''Content-Type'', ''application/json'')]
                else [(''Content-Type'', ''application/json'')]), sr, wr)"
  using nk tok exp rf
  by (simp add: getMCPAuthHeaders_def Let_def M_defs)

lemma getMCPAuthHeaders_total:
  assumes "getMCPAuthHeaders env mcpUrl (s, w) = (r, s1, w1)"
  shows "\<exists>headers. r = Inr headers"
proof (cases "isTravelUrl env mcpUrl \<and> trim (MCP_API_KEY env) \<noteq> []")
  case True
  then show ?thesis using assms by (auto simp: getMCPAuthHeaders_def Let_def M_defs)
next
  case nk: False
  show ?thesis
  proof (cases "truthyStr (googleAccessToken s)")
    case False
    then show ?thesis using assms nk by (auto simp: getMCPAuthHeaders_def Let_def M_defs)
  next
    case tok: True
    show ?thesis
    proof (cases "googleTokenExpiry s \<le> dateNow env w")
      case False
      then show ?thesis using assms nk tok
        by (auto simp: getMCPAuthHeaders_def Let_def M_defs)
    next
      case True
      obtain rr sr wr where rf: "refreshGoogleToken env (s, w) = (rr, sr, wr)"
        by (cases "refreshGoogleToken env (s, w)") auto
      from refreshGoogleToken_outcome [OF rf] obtain b where "rr = Inr b" by blast
      with rf getMCPAuthHeaders_refreshing [OF nk tok True, of b sr wr] assms
      show ?thesis by auto
    qed
  qed
qed

text \<open>
  C4. \<open>getMCPAuthHeaders\<close> never throws. Called for an endpoint that does not take the
  static key while the cached access token has expiry \<open>\<le> now\<close>, it enters
  \<open>refreshGoogleToken\<close> exactly once (and sends at most one request) before it decides
  the headers; if that refresh fails, the headers carry no \<open>Authorization\<close>, exactly
  one \<open>needs_relogin\<close> event has been emitted, and every later call, in whatever
  number and for whatever URL, leaves the client state as it is (so emits nothing) and
  returns headers without \<open>Authorization\<close>.
\<close>

theorem getMCPAuthHeaders_expired:
  assumes run: "getMCPAuthHeaders env mcpUrl (s, w) = (r, s1, w1)"
  shows "(\<exists>headers. r = Inr headers)
     \<and> (\<not> (isTravelUrl env mcpUrl \<and> trim (MCP_API_KEY env) \<noteq> [])
          \<and> truthyStr (googleAccessToken s) \<and> googleTokenExpiry s \<le> dateNow env w \<longrightarrow>
          count_list (log s1) RefreshCalled = count_list (log s) RefreshCalled + 1
        \<and> length (filter isFetched (log s1)) \<le> length (filter isFetched (log s)) + 1
        \<and> (fst (refreshGoogleToken env (s, w)) = Inr False \<longrightarrow>
              (\<forall>headers. r = Inr headers \<longrightarrow> map_of headers ''Authorization'' = None)
            \<and> count_list (log s1) (Emitted NeedsRelogin)
                = count_list (log s) (Emitted NeedsRelogin) + 1
            \<and> (\<forall>urls w'. case getMCPAuthHeadersMany env urls (s1, w') of
                   (rs, s2, w2) \<Rightarrow> s2 = s1 \<and> w2 = w'
                     \<and> (\<forall>x \<in> set rs. \<exists>h. x = Inr h \<and> map_of h ''Authorization'' = None))))"
proof (intro conjI impI)
  show "\<exists>headers. r = Inr headers" by (rule getMCPAuthHeaders_total [OF run])
next
  assume h: "\<not> (isTravelUrl env mcpUrl \<and> trim (MCP_API_KEY env) \<noteq> [])
          \<and> truthyStr (googleAccessToken s) \<and> googleTokenExpiry s \<le> dateNow env w"
  obtain rr sr wr where rf: "refreshGoogleToken env (s, w) = (rr, sr, wr)"
    by (cases "refreshGoogleToken env (s, w)") auto
  from refreshGoogleToken_outcome [OF rf] obtain b d where
    o: "rr = Inr b" "log sr = log s @ RefreshCalled # d" "count_list d RefreshCalled = 0"
       "count_list d (Emitted NeedsRelogin) =
          (if b \<or> (\<not> truthyStr (googleRefreshToken s) \<and> \<not> truthyStr (googleAccessToken s))
           then 0 else 1)"
       "length (filter isFetched d) \<le> 1"
       "filter isCallPost d = []"
       "\<not> b \<and> truthyStr (googleAccessToken s) \<longrightarrow> googleAccessToken sr = None"
    by blast
  from h have nk: "\<not> (isTravelUrl env mcpUrl \<and> trim (MCP_API_KEY env) \<noteq> [])"
    and tok: "truthyStr (googleAccessToken s)" and exp: "googleTokenExpiry s \<le> dateNow env w"
    by auto
  from getMCPAuthHeaders_refreshing [OF nk tok exp rf [unfolded o(1)]] run
  have res: "s1 = sr" "w1 = wr"
    "r = Inr (if truthyStr (googleAccessToken sr) \<and> googleTokenExpiry sr > dateNow env wr
                then setHeader ''Authorization''
                       (''Bearer '' @ (case googleAccessToken sr of None \<Rightarrow> [] | Some a \<Rightarrow> a))
                       [(''Content-Type'', ''application/json'')]
                else [(''Content-Type'', ''application/json'')])"
    by auto
  show "count_list (log s1) RefreshCalled = count_list (log s) RefreshCalled + 1"
    using o(2,3) res(1) by simp
  show "length (filter isFetched (log s1)) \<le> length (filter isFetched (log s)) + 1"
    using o(2,5) res(1) by simp
  {
    assume f: "fst (refreshGoogleToken env (s, w)) = Inr False"
    with rf o(1) have nb: "\<not> b" by simp
    with o(7) tok have cleared: "googleAccessToken s1 = None" using res(1) by simp
    show "\<forall>headers. r = Inr headers \<longrightarrow> map_of headers ''Authorization'' = None"
      using res(3) cleared res(1) by (simp add: truthyStr_def)
    show "count_list (log s1) (Emitted NeedsRelogin) = count_list (log s) (Emitted NeedsRelogin) + 1"
      using o(2,4) nb tok res(1) by simp
    show "\<forall>urls w'. case getMCPAuthHeadersMany env urls (s1, w') of
                   (rs, s2, w2) \<Rightarrow> s2 = s1 \<and> w2 = w'
                     \<and> (\<forall>x \<in> set rs. \<exists>h. x = Inr h \<and> map_of h ''Authorization'' = None)"
      by (intro allI) (rule getMCPAuthHeadersMany_cleared [OF cleared])
  }
qed

lemmas eval_defs = M_defs getMCPAuthHeaders_def isTravelUrl_def refreshGoogleToken_def
  failRefresh_run clearMCPGoogleToken_run doFetch_def refreshFromResponse_def refreshRequest_def
  MCP_SERVER_URL_def stripSuffix_def stripMcpSuffix_def endsWith_def trim_def isSpace_def
  truthyStr_def Let_def emitAuthEvent_def

text \<open>
  The witness of C4: the token expired at 0, the clock stands at 1000 and the network is
  down. The one refresh fails, the headers are the content type alone, one
  \<open>needs_relogin\<close> is in the log, and two more calls change nothing.
\<close>

theorem getMCPAuthHeaders_expired_witness:
  "\<exists>s1. getMCPAuthHeaders envDown (Some ''https://g.example/mcp'') (clientExpired, ())
           = (Inr [(''Content-Type'', ''application/json'')], s1, ())
     \<and> fst (refreshGoogleToken envDown (clientExpired, ())) = Inr False
     \<and> count_list (log s1) RefreshCalled = 1
     \<and> count_list (log s1) (Emitted NeedsRelogin) = 1
     \<and> fst (getMCPAuthHeadersMany envDown [None, Some ''https://g.example/mcp''] (s1, ()))
         = [Inr [(''Content-Type'', ''application/json'')], Inr [(''Content-Type'', ''application/json'')]]
     \<and> fst (snd (getMCPAuthHeadersMany envDown [None, Some ''https://g.example/mcp''] (s1, ()))) = s1"
proof -
  let ?u = "Some ''https://g.example/mcp''"
  let ?s1 = "clientExpired\<lparr>googleAccessToken := None, googleRefreshToken := None,
        googleTokenExpiry := 0,
        log := [RefreshCalled,
                Fetched (refreshRequest ''https://g.example'' (Some ''refresh'')),
                Emitted TokenCleared, Emitted NeedsRelogin]\<rparr>"
  have run: "getMCPAuthHeaders envDown ?u (clientExpired, ()) =
      (Inr [(''Content-Type'', ''application/json'')], ?s1, ())"
    by (simp add: eval_defs envDown_def mkEnv_def clientExpired_def)
  have hyp: "\<not> (isTravelUrl envDown ?u \<and> trim (MCP_API_KEY envDown) \<noteq> [])
      \<and> truthyStr (googleAccessToken clientExpired)
      \<and> googleTokenExpiry clientExpired \<le> dateNow envDown ()"
    by (simp add: envDown_def mkEnv_def clientExpired_def truthyStr_def trim_def)
  have rf: "fst (refreshGoogleToken envDown (clientExpired, ())) = Inr False"
    by (simp add: eval_defs envDown_def mkEnv_def clientExpired_def)
  have many: "getMCPAuthHeadersMany envDown [None, ?u] (?s1, ()) =
     ([Inr [(''Content-Type'', ''application/json'')], Inr [(''Content-Type'', ''application/json'')]], ?s1, ())"
    by (simp add: eval_defs envDown_def mkEnv_def clientExpired_def)
  from getMCPAuthHeaders_expired [OF run] hyp rf
  have "count_list (log ?s1) RefreshCalled = count_list (log clientExpired) RefreshCalled + 1"
    "count_list (log ?s1) (Emitted NeedsRelogin) = count_list (log clientExpired) (Emitted NeedsRelogin) + 1"
    by blast+
  then have "count_list (log ?s1) RefreshCalled = 1" "count_list (log ?s1) (Emitted NeedsRelogin) = 1"
    by (simp_all add: clientExpired_def)
  with run rf many show ?thesis by (intro exI [of _ ?s1]) simp
qed

section \<open>Properties of callMCPTool\<close>

lemma callMCPTool_run:
  "callMCPTool env toolName args (s, w) =
     (case callMCPToolBody env toolName args (s\<lparr>log := log s @ [ToolInvoked toolName args]\<rparr>, w) of
        (x, s1, w1) \<Rightarrow>
          (let res = (case x of Inr r \<Rightarrow> r
                      | Inl error \<Rightarrow> errorResult (''Error calling '' @ toolName @ '': ''
                                          @ err_message error))
           in (Inr res, s1\<lparr>log := log s1 @ [ToolReturned res]\<rparr>, w1)))"
  by (auto simp: callMCPTool_def M_defs split: prod.splits sum.splits)

lemma callMCPTool_total:
  "\<exists>res \<sigma>'. callMCPTool env toolName args \<sigma> = (Inr res, \<sigma>')"
  by (cases \<sigma>) (auto simp: callMCPTool_run Let_def split: prod.splits)

lemma isErrorResult_errorResult [simp]: "isErrorResult (errorResult t)"
  by (simp add: isErrorResult_def errorResult_def)

lemma isLocalhost_nonempty: "isLocalhost b \<Longrightarrow> b \<noteq> []"
  by (auto simp: isLocalhost_def)

lemma callMCPToolBody_localhost:
  assumes "isLocalhost (resolveBaseUrl env s (normalizeToolName s toolName))"
  shows "callMCPToolBody env toolName args (s, w) =
           (Inr (errorResult (''MCP is pointing at localhost (''
                   @ resolveBaseUrl env s (normalizeToolName s toolName)
                   @ ''). Set EXPO_PUBLIC_MCP_SERVER_URL to your deployed MCP URL.'')), s, w)"
  using assms isLocalhost_nonempty [OF assms]
  by (simp add: callMCPToolBody_def bindM_def getState_def ret_def Let_def isLocalhost_def)

lemma normalizeToolName_log [simp]:
  "normalizeToolName (s\<lparr>log := l\<rparr>) t = normalizeToolName s t"
  by (simp add: normalizeToolName_def Let_def)

lemma resolveBaseUrl_log [simp]:
  "resolveBaseUrl env (s\<lparr>log := l\<rparr>) n = resolveBaseUrl env s n"
  by (simp add: resolveBaseUrl_def)

text \<open>
  C10. If the server URL resolved for the normalized tool name contains \<open>localhost\<close> or
  begins with \<open>http://127.0.0.1\<close>, \<open>callMCPTool\<close> returns an error-tagged result with
  one explanatory text item, the world is untouched and no request has been handed to
  \<open>fetch\<close>: the call and its result are all that the log gains.
\<close>

theorem callMCPTool_localhost:
  assumes "str_includes (resolveBaseUrl env s (normalizeToolName s toolName)) ''localhost''
           \<or> startsWith (resolveBaseUrl env s (normalizeToolName s toolName)) ''http://127.0.0.1''"
  shows "\<exists>res s'. callMCPTool env toolName args (s, w) = (Inr res, s', w)
           \<and> isErrorResult res
           \<and> filter isFetched (log s') = filter isFetched (log s)
           \<and> s' = s\<lparr>log := log s @ [ToolInvoked toolName args, ToolReturned res]\<rparr>"
proof -
  from assms have l: "isLocalhost (resolveBaseUrl env (s\<lparr>log := log s @ [ToolInvoked toolName args]\<rparr>)
       (normalizeToolName (s\<lparr>log := log s @ [ToolInvoked toolName args]\<rparr>) toolName))"
    by (simp add: isLocalhost_def)
  show ?thesis
    unfolding callMCPTool_run callMCPToolBody_localhost [OF l]
    by (simp add: Let_def)
qed











lemmas call_eval_defs = callMCPToolBody_def resolveBaseUrl_def normalizeToolName_def
  stripPrefix_def dotsToUnderscores_def MINIMAL_TOOL_ALIASES_def isLocalhost_def
  restCallLoop.simps restCallStep_def callRequest_def restCallResult_def restCallData_def
  errorResult_def textResult_def

text \<open>The witness of C10: the configured endpoint is \<open>http://localhost:8000/mcp\<close>.\<close>

theorem callMCPTool_localhost_witness:
  "str_includes (resolveBaseUrl envLocal clientFresh (normalizeToolName clientFresh ''gmail_send''))
     ''localhost''
   \<and> (\<exists>res s'. callMCPTool envLocal ''gmail_send'' (JObj []) (clientFresh, ()) = (Inr res, s', ())
         \<and> isErrorResult res \<and> filter isFetched (log s') = [])"
proof -
  have h: "str_includes (resolveBaseUrl envLocal clientFresh (normalizeToolName clientFresh ''gmail_send''))
     ''localhost''"
    by (simp add: eval_defs call_eval_defs envLocal_def envDown_def mkEnv_def clientFresh_def)
  have l: "filter isFetched (log clientFresh) = []" by (simp add: clientFresh_def)
  from callMCPTool_localhost [OF disjI1 [OF h], of "JObj []" "()"] l h
  show ?thesis by auto
qed


section \<open>Properties of the REST call loop\<close>


lemma postsTo_append [simp]: "postsTo u (xs @ ys) = postsTo u xs + postsTo u ys"
  by (induction xs) (auto split: LogEntry.splits)



lemma postsTo_other: "u \<noteq> url \<Longrightarrow> postsTo u [Fetched (callRequest url hs n a)] = 0"
  by (simp add: callRequest_def)









section \<open>Properties of discovery\<close>

named_theorems keeps

lemma keeps_ret [keeps]: "keepsRouting (ret a)"
  by (simp add: keepsRouting_def ret_def)

lemma keeps_throw [keeps]: "keepsRouting (throw e)"
  by (simp add: keepsRouting_def throw_def)

lemma keeps_liftE [keeps]: "keepsRouting (liftE x)"
  by (simp add: keepsRouting_def liftE_def)

lemma keeps_getState [keeps]: "keepsRouting getState"
  by (auto simp: keepsRouting_def getState_def)

lemma keeps_now [keeps]: "keepsRouting (now env)"
  by (auto simp: keepsRouting_def now_def)

lemma keeps_modify: "(\<And>s. toolToServerMap (f s) = toolToServerMap s) \<Longrightarrow> keepsRouting (modify f)"
  by (auto simp: keepsRouting_def modify_def)

lemma keeps_bind [keeps]:
  "keepsRouting m \<Longrightarrow> (\<And>a. keepsRouting (f a)) \<Longrightarrow> keepsRouting (bindM m f)"
  unfolding keepsRouting_def bindM_def
  by (auto split: prod.splits sum.splits) (metis+)

lemma keeps_then [keeps]:
  "keepsRouting m \<Longrightarrow> keepsRouting n \<Longrightarrow> keepsRouting (thenM m n)"
  unfolding thenM_def by (rule keeps_bind)

lemma keeps_try [keeps]:
  "keepsRouting m \<Longrightarrow> (\<And>e. keepsRouting (h e)) \<Longrightarrow> keepsRouting (tryCatch m h)"
  unfolding keepsRouting_def tryCatch_def
  by (auto split: prod.splits sum.splits) (metis+)

lemma keeps_doFetch [keeps]: "keepsRouting (doFetch env req)"
  by (auto simp: keepsRouting_def doFetch_def split: prod.splits)

lemma keeps_if [keeps]:
  "(c \<Longrightarrow> keepsRouting a) \<Longrightarrow> (\<not> c \<Longrightarrow> keepsRouting b) \<Longrightarrow> keepsRouting (if c then a else b)"
  by simp

lemma keeps_emit [keeps]: "keepsRouting (emitAuthEvent ev)"
  unfolding emitAuthEvent_def by (rule keeps_modify) simp

lemma keeps_delete [keeps]: "keepsRouting (deleteSecureItems env ks)"
  by (auto simp: keepsRouting_def deleteSecureItems_def)

lemma keeps_set [keeps]: "keepsRouting (setSecureItems env kvs)"
  by (auto simp: keepsRouting_def setSecureItems_def split: prod.splits option.splits)

lemma keeps_clear [keeps]: "keepsRouting (clearMCPGoogleToken env)"
  unfolding clearMCPGoogleToken_def
  by (intro keeps keeps_modify) simp

lemma keeps_setToken [keeps]: "keepsRouting (setMCPGoogleToken env a n r)"
  unfolding setMCPGoogleToken_def
  by (intro keeps keeps_modify) simp_all

lemma keeps_failRefresh [keeps]: "keepsRouting (failRefresh env)"
  unfolding failRefresh_def by (intro keeps)

lemma keeps_resText [keeps]: "keepsRouting (resText res)"
  unfolding resText_def by (intro keeps)

lemma keeps_resJson [keeps]: "keepsRouting (resJson env res)"
  unfolding resJson_def by (intro keeps) (auto split: option.splits intro: keeps)

lemma keeps_refreshFromResponse [keeps]: "keepsRouting (refreshFromResponse env res)"
  unfolding refreshFromResponse_def by (intro keeps)

lemma keeps_refresh [keeps]: "keepsRouting (refreshGoogleToken env)"
  unfolding refreshGoogleToken_def Let_def
  by (intro keeps keeps_modify) simp

lemma keeps_authHeaders [keeps]: "keepsRouting (getMCPAuthHeaders env u)"
  unfolding getMCPAuthHeaders_def Let_def
  by (intro keeps)

lemma keeps_parseMcp [keeps]: "keepsRouting (parseMcpResponse env res)"
  unfolding parseMcpResponse_def Let_def
  by (intro keeps) (auto split: option.splits intro: keeps)

lemma keeps_rpcResponse [keeps]: "keepsRouting (mcpRpcResponse env m n res)"
  unfolding mcpRpcResponse_def
  by (intro keeps) (auto split: option.splits intro: keeps)

lemma keeps_nextRpcId [keeps]: "keepsRouting (nextRpcId n)"
  by (auto simp: keepsRouting_def nextRpcId_def ret_def)

lemma keeps_mcpRpc [keeps]: "keepsRouting (mcpRpc env u m p n)"
  unfolding mcpRpc_def
  by (intro keeps keeps_modify) simp

lemma keeps_mcpInitialize [keeps]: "keepsRouting (mcpInitialize env u)"
  unfolding mcpInitialize_def by (intro keeps)

lemma keeps_ensureSession [keeps]: "keepsRouting (ensureSession env u)"
  unfolding ensureSession_def by (intro keeps)

lemma keeps_mcpListTools [keeps]: "keepsRouting (mcpListTools env u)"
  unfolding mcpListTools_def by (intro keeps)

lemma keeps_mcpDiscover [keeps]: "keepsRouting (mcpDiscover env u)"
  unfolding mcpDiscover_def by (intro keeps keeps_modify) simp

lemma keeps_restDiscoverStep [keeps]: "keepsRouting (restDiscoverStep env hs b p)"
  unfolding restDiscoverStep_def Let_def by (intro keeps keeps_modify) simp

lemma keeps_restPathLoop [keeps]: "keepsRouting (restPathLoop env hs b ps)"
proof (induction ps)
  case Nil
  then show ?case by (simp add: keepsRouting_def)
next
  case (Cons p ps)
  have k: "keepsRouting (restDiscoverStep env hs b p)" by (rule keeps_restDiscoverStep)
  show ?case
    unfolding keepsRouting_def
  proof (intro allI impI)
    fix s w r s' w'
    assume a: "restPathLoop env hs b (p # ps) (s, w) = (r, s', w')"
    obtain x s1 w1 where st: "restDiscoverStep env hs b p (s, w) = (x, s1, w1)"
      by (cases "restDiscoverStep env hs b p (s, w)") auto
    from k st have e1: "toolToServerMap s1 = toolToServerMap s"
      unfolding keepsRouting_def by blast
    have ih: "\<And>s w r s' w'. restPathLoop env hs b ps (s, w) = (r, s', w') \<Longrightarrow>
                toolToServerMap s' = toolToServerMap s"
      using Cons.IH unfolding keepsRouting_def by blast
    show "toolToServerMap s' = toolToServerMap s"
      using a st e1 by (auto split: sum.splits option.splits dest: ih)
  qed
qed

lemma keeps_restBaseLoop [keeps]: "keepsRouting (restBaseLoop env hs bs ps)"
proof (induction bs)
  case Nil
  then show ?case by (simp add: keepsRouting_def)
next
  case (Cons b bs)
  have k: "keepsRouting (restPathLoop env hs b ps)" by (rule keeps_restPathLoop)
  show ?case
    unfolding keepsRouting_def
  proof (intro allI impI)
    fix s w r s' w'
    assume a: "restBaseLoop env hs (b # bs) ps (s, w) = (r, s', w')"
    obtain x s1 w1 where st: "restPathLoop env hs b ps (s, w) = (x, s1, w1)"
      by (cases "restPathLoop env hs b ps (s, w)") auto
    from k st have e1: "toolToServerMap s1 = toolToServerMap s"
      unfolding keepsRouting_def by blast
    have ih: "\<And>s w r s' w'. restBaseLoop env hs bs ps (s, w) = (r, s', w') \<Longrightarrow>
                toolToServerMap s' = toolToServerMap s"
      using Cons.IH unfolding keepsRouting_def by blast
    show "toolToServerMap s' = toolToServerMap s"
      using a st e1 by (auto split: sum.splits option.splits dest: ih)
  qed
qed

lemma keeps_fetchTools [keeps]: "keepsRouting (fetchToolsFromServer env b r n)"
  unfolding fetchToolsFromServer_def
  by (intro keeps) (auto split: option.splits intro!: keeps)

lemma discover_routing:
  "discover env srv (s, w) = (r, s', w') \<Longrightarrow> toolToServerMap s' = toolToServerMap s"
  using keeps_fetchTools [of env "srv_baseUrl srv" "srv_rootUrl srv" "Some (srv_name srv)"]
  unfolding keepsRouting_def discover_def by blast


lemma routeTools_apply:
  "routeTools m ts base n = (if n \<in> set (map tool_name ts) then Some base else m n)"
  by (induction ts arbitrary: m) auto

lemma listLoop_contributions:
  "listLoop env servers acc (s, w) = (allTools, s', w') \<Longrightarrow>
     allTools = acc @ concat (map fst (contributions routeInState env servers (s, w)))
     \<and> (\<forall>n. toolToServerMap s' n =
              (case lastContributor (contributions routeInState env servers (s, w)) n of
                 Some b \<Rightarrow> Some b
               | None \<Rightarrow> toolToServerMap s n))"
proof (induction servers arbitrary: acc s w)
  case Nil
  then show ?case by simp
next
  case (Cons srv rest)
  obtain x s1 w1 where f: "discover env srv (s, w) = (x, s1, w1)"
    by (cases "discover env srv (s, w)") auto
  note m1 = discover_routing [OF f]
  show ?case
  proof (cases x)
    case (Inl e)
    with Cons.prems f have "listLoop env rest acc (s1, w1) = (allTools, s', w')"
      by (simp add: discover_def)
    from Cons.IH [OF this] show ?thesis using f Inl m1
      by (auto split: option.splits)
  next
    case (Inr found)
    obtain ts base where found: "found = (ts, base)" by (cases found)
    from Cons.prems f Inr found
    have "listLoop env rest (acc @ ts) (routeInState s1 ts base, w1) = (allTools, s', w')"
      by (simp add: discover_def routeInState_def)
    from Cons.IH [OF this] show ?thesis using f Inr found m1
      by (auto simp: routeInState_def routeTools_apply split: option.splits)
  qed
qed


lemma doFetch_down:
  assumes "isl (fst (fetch env w req))"
  shows "\<exists>e s' w'. doFetch env req (s, w) = (Inl e, s', w')"
  using assms by (cases "fetch env w req") (auto simp: doFetch_def isl_def)

lemma mcpRpcRequest_url [simp]: "req_url (mcpRpcRequest s u m p hs idf) = u"
  by (simp add: mcpRpcRequest_def Let_def)

lemma nextRpcId_total: "\<exists>x s' . nextRpcId n (s, w) = (Inr x, s', w)"
  by (simp add: nextRpcId_def ret_def)

lemma mcpRpc_down:
  assumes down: "\<And>w req. req_url req = u \<Longrightarrow> isl (fst (fetch env w req))"
  shows "isl (fst (mcpRpc env u m p n \<sigma>))"
proof -
  obtain s w where \<sigma>: "\<sigma> = (s, w)" by (cases \<sigma>)
  obtain r1 s1 w1 where h: "getMCPAuthHeaders env (Some u) (s, w) = (r1, s1, w1)"
    by (cases "getMCPAuthHeaders env (Some u) (s, w)") auto
  from getMCPAuthHeaders_total [OF h] obtain hs where r1: "r1 = Inr hs" by blast
  obtain idf s2 where i: "nextRpcId n (s1, w1) = (Inr idf, s2, w1)"
    using nextRpcId_total [of n s1 w1] by blast
  from down [of "mcpRpcRequest s1 u m p hs idf" w1]
  obtain e s3 w3 where f: "doFetch env (mcpRpcRequest s1 u m p hs idf) (s2, w1) = (Inl e, s3, w3)"
    using doFetch_down [of env w1 "mcpRpcRequest s1 u m p hs idf" s2] by auto
  show ?thesis
    unfolding \<sigma> mcpRpc_def
    by (simp add: bindM_def h r1 getState_def i f)
qed

lemma mcpListTools_down:
  assumes down: "\<And>w req. req_url req = u \<Longrightarrow> isl (fst (fetch env w req))"
  shows "isl (fst (mcpListTools env u \<sigma>))"
proof -
  obtain s w where \<sigma>: "\<sigma> = (s, w)" by (cases \<sigma>)
  have r: "\<And>m p n \<sigma>. isl (fst (mcpRpc env u m p n \<sigma>))"
    by (rule mcpRpc_down) (rule down)
  have init: "isl (fst (mcpInitialize env u (s, w)))"
    unfolding mcpInitialize_def bindM_def
    using r [of "''initialize''" "Some (JObj [(''protocolVersion'', JStr MCP_PROTOCOL_VERSION),
                           (''capabilities'', JObj []),
                           (''clientInfo'', JObj [(''name'', JStr ''agentcore''),
                                                  (''version'', JStr ''1.0.0'')])])" False "(s, w)"]
    by (auto simp: isl_def split: prod.splits sum.splits)
  show ?thesis
  proof (cases "truthyStr (mcpSessions s u)")
    case False
    then show ?thesis using init unfolding \<sigma>
      by (auto simp: mcpListTools_def ensureSession_def thenM_def bindM_def getState_def isl_def
          split: prod.splits sum.splits)
  next
    case True
    then show ?thesis
      using r [of "''tools/list''" None False "(s, w)"] unfolding \<sigma>
      by (auto simp: mcpListTools_def ensureSession_def thenM_def bindM_def getState_def ret_def
          isl_def split: prod.splits sum.splits)
  qed
qed

lemma mcpDiscover_down:
  assumes down: "\<And>w req. req_url req = u \<Longrightarrow> isl (fst (fetch env w req))"
  shows "\<exists>\<sigma>'. mcpDiscover env u \<sigma> = (Inr None, \<sigma>')"
  using mcpListTools_down [where env=env and u=u and \<sigma>=\<sigma>] down
  by (auto simp: mcpDiscover_def tryCatch_def bindM_def ret_def isl_def
      split: prod.splits sum.splits)

lemma restDiscoverStep_down:
  assumes down: "\<And>w req. req_url req = base @ path \<Longrightarrow> isl (fst (fetch env w req))"
  shows "\<exists>\<sigma>'. restDiscoverStep env hs base path \<sigma> = (Inr None, \<sigma>')"
proof -
  obtain s w where \<sigma>: "\<sigma> = (s, w)" by (cases \<sigma>)
  let ?q = "\<lparr>req_url = base @ path, req_method = ''GET'', req_headers = hs, req_body = None\<rparr>"
  from doFetch_down [of env w ?q s] down [of ?q w]
  obtain e s' w' where "doFetch env ?q (s, w) = (Inl e, s', w')" by auto
  then show ?thesis unfolding \<sigma>
    by (simp add: restDiscoverStep_def tryCatch_def bindM_def ret_def)
qed

lemma restPathLoop_down:
  assumes down: "\<And>path w req. path \<in> set paths \<Longrightarrow> req_url req = base @ path \<Longrightarrow>
                   isl (fst (fetch env w req))"
  shows "\<exists>\<sigma>'. restPathLoop env hs base paths \<sigma> = (Inr None, \<sigma>')"
  using down
proof (induction paths arbitrary: \<sigma>)
  case Nil
  then show ?case by simp
next
  case (Cons path paths)
  have "\<exists>\<sigma>1. restDiscoverStep env hs base path \<sigma> = (Inr None, \<sigma>1)"
    by (rule restDiscoverStep_down) (auto intro: Cons.prems)
  then obtain \<sigma>1 where s: "restDiscoverStep env hs base path \<sigma> = (Inr None, \<sigma>1)" by blast
  have "\<exists>\<sigma>2. restPathLoop env hs base paths \<sigma>1 = (Inr None, \<sigma>2)"
    by (rule Cons.IH) (auto intro: Cons.prems)
  then obtain \<sigma>2 where "restPathLoop env hs base paths \<sigma>1 = (Inr None, \<sigma>2)" by blast
  then show ?case using s by simp
qed

lemma restBaseLoop_down:
  assumes down: "\<And>base path w req. base \<in> set bases \<Longrightarrow> path \<in> set paths \<Longrightarrow>
                   req_url req = base @ path \<Longrightarrow> isl (fst (fetch env w req))"
  shows "\<exists>\<sigma>'. restBaseLoop env hs bases paths \<sigma> = (Inr None, \<sigma>')"
  using down
proof (induction bases arbitrary: \<sigma>)
  case Nil
  then show ?case by simp
next
  case (Cons base bases)
  have "\<exists>\<sigma>1. restPathLoop env hs base paths \<sigma> = (Inr None, \<sigma>1)"
    by (rule restPathLoop_down) (auto intro: Cons.prems)
  then obtain \<sigma>1 where s: "restPathLoop env hs base paths \<sigma> = (Inr None, \<sigma>1)" by blast
  have "\<exists>\<sigma>2. restBaseLoop env hs bases paths \<sigma>1 = (Inr None, \<sigma>2)"
    by (rule Cons.IH) (auto intro: Cons.prems)
  then obtain \<sigma>2 where "restBaseLoop env hs bases paths \<sigma>1 = (Inr None, \<sigma>2)" by blast
  then show ?case using s by simp
qed

lemma discover_down:
  assumes "transportDown env srv"
  shows "\<exists>\<sigma>'. discover env srv \<sigma> = (Inr ([], srv_baseUrl srv), \<sigma>')"
proof -
  let ?b = "srv_baseUrl srv"
  have d1: "\<And>w req. req_url req = ?b \<Longrightarrow> isl (fst (fetch env w req))"
    using assms by (simp add: transportDown_def discoveryUrls_def)
  have d2: "\<And>base path w req. base \<in> set (restBases ?b (srv_rootUrl srv)) \<Longrightarrow>
              path \<in> set restPaths \<Longrightarrow> req_url req = base @ path \<Longrightarrow>
              isl (fst (fetch env w req))"
    using assms by (auto simp: transportDown_def discoveryUrls_def)
  have "\<exists>\<sigma>1. mcpDiscover env ?b \<sigma> = (Inr None, \<sigma>1)"
    by (rule mcpDiscover_down) (rule d1)
  then obtain \<sigma>1 where m: "mcpDiscover env ?b \<sigma> = (Inr None, \<sigma>1)" by blast
  show ?thesis
  proof (cases "srv_name srv = ''travel''")
    case True
    then show ?thesis using m
      by (simp add: discover_def fetchToolsFromServer_def bindM_def ret_def)
  next
    case False
    obtain s1 w1 where s1: "\<sigma>1 = (s1, w1)" by (cases \<sigma>1)
    obtain r2 s2 w2 where h: "getMCPAuthHeaders env (Some ?b) (s1, w1) = (r2, s2, w2)"
      by (cases "getMCPAuthHeaders env (Some ?b) (s1, w1)") auto
    from getMCPAuthHeaders_total [OF h] obtain hs where r2: "r2 = Inr hs" by blast
    have "\<exists>\<sigma>3. restBaseLoop env hs (restBases ?b (srv_rootUrl srv)) restPaths (s2, w2)
                 = (Inr None, \<sigma>3)"
      by (rule restBaseLoop_down) (rule d2)
    then obtain \<sigma>3 where
      l: "restBaseLoop env hs (restBases ?b (srv_rootUrl srv)) restPaths (s2, w2) = (Inr None, \<sigma>3)"
      by blast
    show ?thesis using m False
      by (simp add: discover_def fetchToolsFromServer_def bindM_def ret_def s1 h r2 l)
  qed
qed



lemma loadPersistedAuth_total:
  "\<exists>\<sigma>'. loadPersistedAuth env \<sigma> = (Inr (), \<sigma>')"
proof -
  obtain s w where \<sigma>: "\<sigma> = (s, w)" by (cases \<sigma>)
  show ?thesis unfolding \<sigma>
    by (cases "authInitialized s")
       (auto simp: loadPersistedAuth_def M_defs split: prod.splits sum.splits)
qed

lemma keeps_readPersisted [keeps]: "keepsRouting (readPersisted env)"
  by (auto simp: keepsRouting_def readPersisted_def)



lemma listMCPTools_run:
  "listMCPTools env \<sigma> =
     (case listLoop env (getMcpServerUrls env) [] (listStart env \<sigma>) of
        (allTools, \<sigma>') \<Rightarrow> (Inr allTools, \<sigma>'))"
  using loadPersistedAuth_total [of env \<sigma>]
  by (auto simp: listMCPTools_def listStart_def thenM_def bindM_def modify_def split: prod.splits)





lemma contributions_length [simp]: "length (contributions upd env servers \<sigma>) = length servers"
  by (induction servers arbitrary: \<sigma>) (auto split: prod.splits sum.splits)

lemma contributions_down:
  assumes "transportDown env e"
  shows "contributions upd env (pre @ e # post) \<sigma> ! length pre = ([], srv_baseUrl e)"
proof (induction pre arbitrary: \<sigma>)
  case Nil
  from discover_down [OF assms, of \<sigma>] show ?case by (auto split: prod.splits)
next
  case (Cons p pre)
  then show ?case by (auto split: prod.splits sum.splits)
qed

text \<open>
  C8. If every request that the discovery of one configured server makes is rejected, that
  server contributes no tool, and the catalog that \<open>listMCPTools\<close> returns is the
  contributions of the servers before it followed by those of the servers after it: the
  failure does not end the pass.
\<close>

theorem listMCPTools_isolation:
  assumes "transportDown env e" and "getMcpServerUrls env = pre @ e # post"
  shows "\<exists>s' w'. listMCPTools env \<sigma> =
             (Inr (concat (map fst
                (contributions routeInState env (pre @ e # post) (listStart env \<sigma>)))), s', w')
          \<and> fst (contributions routeInState env (pre @ e # post) (listStart env \<sigma>) ! length pre) = []
          \<and> concat (map fst (contributions routeInState env (pre @ e # post) (listStart env \<sigma>)))
              = concat (map fst (take (length pre)
                   (contributions routeInState env (pre @ e # post) (listStart env \<sigma>))))
                @ concat (map fst (drop (Suc (length pre))
                   (contributions routeInState env (pre @ e # post) (listStart env \<sigma>))))"
proof -
  let ?ds = "contributions routeInState env (pre @ e # post) (listStart env \<sigma>)"
  obtain s0 w0 where st: "listStart env \<sigma> = (s0, w0)" by (cases "listStart env \<sigma>")
  obtain allTools s' w' where
    l: "listLoop env (pre @ e # post) [] (s0, w0) = (allTools, s', w')"
    by (cases "listLoop env (pre @ e # post) [] (s0, w0)") auto
  from listLoop_contributions [OF l] have a: "allTools = concat (map fst ?ds)"
    unfolding st by simp
  have r: "listMCPTools env \<sigma> = (Inr (concat (map fst ?ds)), s', w')"
    unfolding listMCPTools_run assms(2) using l a st by simp
  have d: "?ds ! length pre = ([], srv_baseUrl e)"
    by (rule contributions_down [OF assms(1)])
  have len: "length pre < length ?ds" by simp
  have "?ds = take (length pre) ?ds @ ?ds ! length pre # drop (Suc (length pre)) ?ds"
    using len by (rule id_take_nth_drop)
  then have "concat (map fst ?ds) =
       concat (map fst (take (length pre) ?ds @ ?ds ! length pre # drop (Suc (length pre)) ?ds))"
    by simp
  also have "\<dots> = concat (map fst (take (length pre) ?ds))
                  @ concat (map fst (drop (Suc (length pre)) ?ds))"
    unfolding d by simp
  finally show ?thesis using r d by (intro exI [of _ s'] exI [of _ w']) simp
qed

lemmas disc_eval_defs = eval_defs listMCPTools_run listStart_def loadPersistedAuth_def
  getMcpServerUrls_def normalizeBaseUrl_def discover_def fetchToolsFromServer_def
  mcpDiscover_def mcpListTools_def ensureSession_def mcpInitialize_def mcpRpc_def
  mcpRpcRequest_def mcpRpcResponse_def nextRpcId_def parseMcpResponse_def resJson_def
  resText_def optProp_def toolsOfResult_def mkEnv_def mkResponse_def ok_def parseList_def
  clientFresh_def restBases_def restPaths_def restDiscoverStep_def routeInState_def




text \<open>
  The witness of C8: the Google Workspace server rejects every request, the Travel server
  lists \<open>search\<close>; the catalog is the Travel server's tool.
\<close>

theorem listMCPTools_isolation_witness:
  "transportDown envHalf googleSrv
   \<and> getMcpServerUrls envHalf = [] @ googleSrv # [travelSrv]
   \<and> contributions routeInState envHalf ([] @ googleSrv # [travelSrv])
         (listStart envHalf (clientFresh, ()))
       = [([], ''https://g.example/mcp''), ([mkTool ''search''], ''https://t.example/mcp'')]
   \<and> fst (listMCPTools envHalf (clientFresh, ())) = Inr [mkTool ''search'']"
proof -
  have d: "transportDown envHalf googleSrv"
    by (auto simp: transportDown_def discoveryUrls_def restBases_def restPaths_def googleSrv_def
        envHalf_def mkEnv_def stripSuffix_def endsWith_def)
  have u: "getMcpServerUrls envHalf = [] @ googleSrv # [travelSrv]"
    by (simp add: disc_eval_defs envHalf_def googleSrv_def travelSrv_def)
  have c: "contributions routeInState envHalf ([] @ googleSrv # [travelSrv])
         (listStart envHalf (clientFresh, ()))
       = [([], ''https://g.example/mcp''), ([mkTool ''search''], ''https://t.example/mcp'')]"
    by (simp add: disc_eval_defs envHalf_def googleSrv_def travelSrv_def)
  from listMCPTools_isolation [OF d u, of "(clientFresh, ())"]
  have "fst (listMCPTools envHalf (clientFresh, ())) = Inr [mkTool ''search'']"
    unfolding c by auto
  then show ?thesis using d u c by simp
qed

section \<open>The log of a tool call\<close>

named_theorems quiet

lemma logsOnly_same: "(\<And>s w r s' w'. m (s, w) = (r, s', w') \<Longrightarrow> log s' = log s) \<Longrightarrow> logsOnly m"
  unfolding logsOnly_def
proof (intro allI impI)
  fix s w r s' w'
  assume a: "\<And>s w r s' w'. m (s, w) = (r, s', w') \<Longrightarrow> log s' = log s"
    and r: "m (s, w) = (r, s', w')"
  from a [OF r] show "\<exists>d. log s' = log s @ d \<and> list_all notToolEntry d"
    by (intro exI [of _ "[]"]) simp
qed

lemma logsOnly_ret [quiet]: "logsOnly (ret a)"
  by (rule logsOnly_same) (simp add: ret_def)

lemma logsOnly_throw [quiet]: "logsOnly (throw e)"
  by (rule logsOnly_same) (simp add: throw_def)

lemma logsOnly_liftE [quiet]: "logsOnly (liftE x)"
  by (rule logsOnly_same) (simp add: liftE_def)

lemma logsOnly_getState [quiet]: "logsOnly getState"
  by (rule logsOnly_same) (auto simp: getState_def)

lemma logsOnly_now [quiet]: "logsOnly (now env)"
  by (rule logsOnly_same) (auto simp: now_def)

lemma logsOnly_modify: "(\<And>s. log (f s) = log s) \<Longrightarrow> logsOnly (modify f)"
  by (rule logsOnly_same) (auto simp: modify_def)

lemma logsOnly_append: "notToolEntry x \<Longrightarrow> logsOnly (modify (\<lambda>s. s\<lparr>log := log s @ [x]\<rparr>))"
  unfolding logsOnly_def modify_def by auto

lemma logsOnly_bind [quiet]:
  assumes "logsOnly m" and "\<And>a. logsOnly (f a)"
  shows "logsOnly (bindM m f)"
  unfolding logsOnly_def
proof (intro allI impI)
  fix s w r s' w'
  assume "bindM m f (s, w) = (r, s', w')"
  then show "\<exists>d. log s' = log s @ d \<and> list_all notToolEntry d"
  proof (cases rule: bindM_E)
    case (err e)
    then show ?thesis using assms(1) unfolding logsOnly_def by blast
  next
    case (val a \<sigma>1)
    obtain s1 w1 where \<sigma>1: "\<sigma>1 = (s1, w1)" by (cases \<sigma>1)
    from val(1) assms(1) obtain d1 where d1: "log s1 = log s @ d1" "list_all notToolEntry d1"
      unfolding logsOnly_def \<sigma>1 by blast
    from val(2) assms(2) [of a] obtain d2 where d2: "log s' = log s1 @ d2" "list_all notToolEntry d2"
      unfolding logsOnly_def \<sigma>1 by blast
    show ?thesis using d1 d2 by (intro exI [of _ "d1 @ d2"]) simp
  qed
qed

lemma logsOnly_then [quiet]: "logsOnly m \<Longrightarrow> logsOnly n \<Longrightarrow> logsOnly (thenM m n)"
  unfolding thenM_def by (rule logsOnly_bind)

lemma logsOnly_try [quiet]:
  assumes "logsOnly m" and "\<And>e. logsOnly (h e)"
  shows "logsOnly (tryCatch m h)"
  unfolding logsOnly_def
proof (intro allI impI)
  fix s w r s' w'
  assume "tryCatch m h (s, w) = (r, s', w')"
  then show "\<exists>d. log s' = log s @ d \<and> list_all notToolEntry d"
  proof (cases rule: tryCatch_E)
    case (val a)
    then show ?thesis using assms(1) unfolding logsOnly_def by blast
  next
    case (err e \<sigma>1)
    obtain s1 w1 where \<sigma>1: "\<sigma>1 = (s1, w1)" by (cases \<sigma>1)
    from err(1) assms(1) obtain d1 where d1: "log s1 = log s @ d1" "list_all notToolEntry d1"
      unfolding logsOnly_def \<sigma>1 by blast
    from err(2) assms(2) [of e] obtain d2 where d2: "log s' = log s1 @ d2" "list_all notToolEntry d2"
      unfolding logsOnly_def \<sigma>1 by blast
    show ?thesis using d1 d2 by (intro exI [of _ "d1 @ d2"]) simp
  qed
qed

lemma logsOnly_if [quiet]:
  "(c \<Longrightarrow> logsOnly a) \<Longrightarrow> (\<not> c \<Longrightarrow> logsOnly b) \<Longrightarrow> logsOnly (if c then a else b)"
  by simp

lemma logsOnly_doFetch [quiet]: "logsOnly (doFetch env req)"
  unfolding logsOnly_def doFetch_def by (auto split: prod.splits)

lemma logsOnly_emit [quiet]: "logsOnly (emitAuthEvent ev)"
  unfolding emitAuthEvent_def by (rule logsOnly_append) simp

lemma logsOnly_delete [quiet]: "logsOnly (deleteSecureItems env ks)"
  by (rule logsOnly_same) (auto simp: deleteSecureItems_def)

lemma logsOnly_set [quiet]: "logsOnly (setSecureItems env kvs)"
  by (rule logsOnly_same) (auto simp: setSecureItems_def split: prod.splits option.splits)

lemma logsOnly_clear [quiet]: "logsOnly (clearMCPGoogleToken env)"
  unfolding clearMCPGoogleToken_def by (intro quiet logsOnly_modify) simp

lemma logsOnly_setToken [quiet]: "logsOnly (setMCPGoogleToken env a n r)"
  unfolding setMCPGoogleToken_def by (intro quiet logsOnly_modify) simp_all

lemma logsOnly_failRefresh [quiet]: "logsOnly (failRefresh env)"
  unfolding failRefresh_def by (intro quiet)

lemma logsOnly_resText [quiet]: "logsOnly (resText res)"
  unfolding resText_def by (intro quiet)

lemma logsOnly_resJson [quiet]: "logsOnly (resJson env res)"
  unfolding resJson_def by (intro quiet) (auto split: option.splits intro: quiet)

lemma logsOnly_refreshFromResponse [quiet]: "logsOnly (refreshFromResponse env res)"
  unfolding refreshFromResponse_def by (intro quiet)

lemma logsOnly_refresh [quiet]: "logsOnly (refreshGoogleToken env)"
  unfolding refreshGoogleToken_def Let_def
  by (intro quiet logsOnly_append) simp

lemma logsOnly_authHeaders [quiet]: "logsOnly (getMCPAuthHeaders env u)"
  unfolding getMCPAuthHeaders_def Let_def by (intro quiet)

lemma logsOnly_parseMcp [quiet]: "logsOnly (parseMcpResponse env res)"
  unfolding parseMcpResponse_def Let_def
  by (intro quiet) (auto split: option.splits intro: quiet)

lemma logsOnly_rpcResponse [quiet]: "logsOnly (mcpRpcResponse env m n res)"
  unfolding mcpRpcResponse_def
  by (intro quiet) (auto split: option.splits intro: quiet)

lemma logsOnly_nextRpcId [quiet]: "logsOnly (nextRpcId n)"
  by (rule logsOnly_same) (auto simp: nextRpcId_def ret_def split: if_splits)

lemma logsOnly_mcpRpc [quiet]: "logsOnly (mcpRpc env u m p n)"
  unfolding mcpRpc_def by (intro quiet logsOnly_modify) simp

lemma logsOnly_mcpInitialize [quiet]: "logsOnly (mcpInitialize env u)"
  unfolding mcpInitialize_def by (intro quiet)

lemma logsOnly_ensureSession [quiet]: "logsOnly (ensureSession env u)"
  unfolding ensureSession_def by (intro quiet)

lemma logsOnly_mcpCallTool [quiet]: "logsOnly (mcpCallTool env u n a)"
  unfolding mcpCallTool_def by (intro quiet)

lemma logsOnly_restCallStep [quiet]: "logsOnly (restCallStep env hs n a url)"
  unfolding restCallStep_def by (intro quiet)

lemma logsOnly_restCallLoop [quiet]: "logsOnly (restCallLoop env hs n a urls response)"
proof (induction urls arbitrary: response)
  case Nil
  then show ?case by (intro logsOnly_same) simp
next
  case (Cons url urls)
  show ?case unfolding logsOnly_def
  proof (intro allI impI)
    fix s w r s' w'
    assume a: "restCallLoop env hs n a (url # urls) response (s, w) = (r, s', w')"
    obtain x s1 w1 where st: "restCallStep env hs n a url (s, w) = (x, s1, w1)"
      by (cases "restCallStep env hs n a url (s, w)") auto
    from logsOnly_restCallStep [of env hs n a url, unfolded logsOnly_def] st
    obtain d1 where d1: "log s1 = log s @ d1" "list_all notToolEntry d1" by blast
    have ih: "\<And>resp r s' w'. restCallLoop env hs n a urls resp (s1, w1) = (r, s', w') \<Longrightarrow>
                \<exists>d. log s' = log s1 @ d \<and> list_all notToolEntry d"
      using Cons.IH unfolding logsOnly_def by blast
    show "\<exists>d. log s' = log s @ d \<and> list_all notToolEntry d"
    proof (cases "\<exists>res. x = Inr (False, res)")
      case True
      then obtain res where "x = Inr (False, res)" by blast
      with a st have "restCallLoop env hs n a urls (Some res) (s1, w1) = (r, s', w')" by simp
      from ih [OF this] obtain d2 where "log s' = log s1 @ d2" "list_all notToolEntry d2" by blast
      then show ?thesis using d1 by (intro exI [of _ "d1 @ d2"]) simp
    next
      case False
      then have "s' = s1" using a st by (auto split: sum.splits bool.splits prod.splits)
      then show ?thesis using d1 by blast
    qed
  qed
qed

lemma logsOnly_restCallResult [quiet]: "logsOnly (restCallResult env n response)"
  unfolding restCallResult_def
  by (auto split: option.splits json.splits intro!: quiet)



section \<open>Properties of the agentic loop\<close>

lemma invokedCalls_append [simp]: "invokedCalls (xs @ ys) = invokedCalls xs @ invokedCalls ys"
  by (induction xs rule: invokedCalls.induct) auto

lemma returnedResults_append [simp]:
  "returnedResults (xs @ ys) = returnedResults xs @ returnedResults ys"
  by (induction xs rule: returnedResults.induct) auto

lemma invokedCalls_quiet [simp]: "list_all notToolEntry d \<Longrightarrow> invokedCalls d = []"
  by (induction d rule: invokedCalls.induct) auto

lemma returnedResults_quiet [simp]: "list_all notToolEntry d \<Longrightarrow> returnedResults d = []"
  by (induction d rule: returnedResults.induct) auto



lemma recordsOf_Nil [simp]: "recordsOf cenv [] = []"
  by (simp add: recordsOf_def)

lemma responsesOf_Nil [simp]: "responsesOf cenv [] = []"
  by (simp add: responsesOf_def)






section \<open>Properties of a chat turn\<close>




text \<open>A pass with two requests: the primary model rejects the request and the fallback
  model answers, so one pass of the loop sends two requests to the model.\<close>

lemma chat_fallback_requests:
  "snd (fst (chat envDown cenvFallback ''2nd Brain'' cfgW contentsW ((clientFresh, ()), ()))) = 1
   \<and> map gen_model (genLog (fst (snd (chat envDown cenvFallback ''2nd Brain'' cfgW contentsW
                                         ((clientFresh, ()), ())))))
       = [MODEL, FALLBACK_MODEL]
   \<and> ar_text (fst (fst (chat envDown cenvFallback ''2nd Brain'' cfgW contentsW
                           ((clientFresh, ()), ())))) = ''Done.''
   \<and> ar_model (fst (fst (chat envDown cenvFallback ''2nd Brain'' cfgW contentsW
                            ((clientFresh, ()), ())))) = Some FALLBACK_MODEL"
proof -
  let ?resp = "\<lparr>candidates = [Some [\<lparr>functionCall = None, part_text = Some ''Done.'',
                                        thought = False\<rparr>]],
                resp_text = Some ''Done.''\<rparr>"
  have "agenticLoop envDown cenvFallback cfgW 0 contentsW
          (\<lparr>toolCalls = [], events = [], lastModelUsed = MODEL, genLog = []\<rparr>,
           (clientFresh, ()), ())
        = (LoopExit (Some ?resp) 1,
           \<lparr>toolCalls = [], events = [], lastModelUsed = FALLBACK_MODEL,
             genLog = [genRequest cfgW MODEL contentsW,
                       genRequest cfgW FALLBACK_MODEL contentsW]\<rparr>,
           (clientFresh, ()), ())"
    by (subst agenticLoop.simps)
      (simp add: MAX_TOOL_ITERATIONS_def iterationBody_def generateWithFallback_def Let_def
        cenvFallback_def genRequest_def functionCallParts_def responseParts_def MODEL_def
        FALLBACK_MODEL_def)
  then show ?thesis
    by (simp add: chat_def genRequest_def)
qed





end
